theory Spec2Isabelle
  imports Complex_Main
begin

section \<open>Numbers\<close>

text \<open>
  The program computes with JavaScript numbers. A finite number is modelled as a
  \<^typ>\<open>real\<close> and its arithmetic as exact real arithmetic (rounding is outside the model).
  Where the source coerces a value with \<^verbatim>\<open>Number(v) || 0\<close> the value may also be
  \<^verbatim>\<open>NaN\<close> or an infinity; that is the type \<open>jsnum\<close>, the result of
  \<^verbatim>\<open>Number(v)\<close>.
\<close>

datatype jsnum = Fin real | PosInf | NegInf | NaN

definition TWO_PI :: real where
  "TWO_PI = pi * 2"

definition HIT_ANGLE_TOL :: real where
  "HIT_ANGLE_TOL = 0.25"

text \<open>\<^verbatim>\<open>clamp(value, min, max) = Math.min(Math.max(value, min), max)\<close> on finite numbers.\<close>

definition clamp :: "real \<Rightarrow> real \<Rightarrow> real \<Rightarrow> real" where
  "clamp v mn mx = min (max v mn) mx"

text \<open>
  The idiom \<^verbatim>\<open>clamp(Number(v) || 0, mn, mx)\<close>: \<^verbatim>\<open>NaN\<close> is falsy and becomes 0 (as
  does 0 itself), every other number is kept; \<^verbatim>\<open>Math.max(Infinity, mn)\<close> is
  \<^verbatim>\<open>Infinity\<close> and \<^verbatim>\<open>Math.min(Infinity, mx)\<close> is \<open>mx\<close>;
  \<^verbatim>\<open>Math.max(-Infinity, mn)\<close> is \<open>mn\<close>.
\<close>

fun clamp_num_or0 :: "jsnum \<Rightarrow> real \<Rightarrow> real \<Rightarrow> real" where
  "clamp_num_or0 (Fin r) mn mx = clamp r mn mx"
| "clamp_num_or0 NaN mn mx = clamp 0 mn mx"
| "clamp_num_or0 PosInf mn mx = mx"
| "clamp_num_or0 NegInf mn mx = min mn mx"

text \<open>
  The remainder operator \<^verbatim>\<open>a % m\<close> on finite numbers with \<open>m \<noteq> 0\<close>: the quotient is
  truncated towards zero, so the result has the sign of \<open>a\<close>.
\<close>

definition js_rem :: "real \<Rightarrow> real \<Rightarrow> real" where
  "js_rem a m = a - m * of_int (if a / m < 0 then \<lceil>a / m\<rceil> else \<lfloor>a / m\<rfloor>)"

text \<open>
  A value handed to \<^verbatim>\<open>Number(v)\<close>. The conversion throws a \<^verbatim>\<open>TypeError\<close> for a
  Symbol; every other value converts to a number, and \<open>Converts n\<close> is a value that converts
  to \<open>n\<close>.
\<close>

datatype jsvalue = Converts jsnum | SymbolValue

datatype jserror = TypeError

definition toNumber :: "jsvalue \<Rightarrow> jserror + jsnum" where
  "toNumber v = (case v of Converts n \<Rightarrow> Inr n | SymbolValue \<Rightarrow> Inl TypeError)"

text \<open>
  Rounding, where a statement depends on it. A JavaScript number is a binary64 value, and
  every arithmetic operation returns the binary64 value nearest to the exact result, a tie
  going to the even significand: \<open>fl x\<close> for an exact result \<open>x\<close> with \<open>\<bar>x\<bar> < 2 ^ 1024\<close>. The
  spacing of the values around \<open>x\<close> is \<open>2\<close> to the power \<open>ulp_exp x\<close>, 52 binary places below
  the leading one and at least \<open>2 ^ - 1074\<close>.
\<close>

definition rne :: "real \<Rightarrow> int" where
  "rne q = (let f = \<lfloor>q\<rfloor> in
            if q - of_int f < 1 / 2 then f
            else if 1 / 2 < q - of_int f then f + 1
            else if even f then f else f + 1)"

definition ulp_exp :: "real \<Rightarrow> int" where
  "ulp_exp x = max (\<lfloor>log 2 \<bar>x\<bar>\<rfloor> - 52) (- 1074)"

definition fl :: "real \<Rightarrow> real" where
  "fl x = (if x = 0 then 0 else of_int (rne (x / 2 powi ulp_exp x)) * 2 powi ulp_exp x)"

section \<open>Angle difference\<close>

text \<open>
  \<^verbatim>\<open>smallestAngleDiff(a, b)\<close>: two loops, the first subtracts \<open>TWO_PI\<close> while the
  difference is above \<open>\<pi>\<close>, the second adds it while the difference is below \<open>-\<pi>\<close>. In
  exact arithmetic every pass changes the difference and both loops end. On binary64 numbers
  a pass leaves a huge difference as it is (\<^verbatim>\<open>1e17 - TWO_PI\<close> is \<^verbatim>\<open>1e17\<close>) and the
  loop does not end there, so the statements about these loops are for bounded differences,
  as the simulation step passes them.
\<close>

function diff_down :: "real \<Rightarrow> real" where
  "diff_down d = (if d > pi then diff_down (d - TWO_PI) else d)"
  by pat_completeness auto
termination
proof (relation "measure (\<lambda>d. nat \<lceil>(d - pi) / TWO_PI\<rceil>)")
  show "wf (measure (\<lambda>d. nat \<lceil>(d - pi) / TWO_PI\<rceil>))" by simp
next
  fix d :: real
  assume h: "pi < d"
  have "(d - TWO_PI - pi) / TWO_PI = (d - pi) / TWO_PI - 1"
    by (simp add: TWO_PI_def field_simps)
  moreover have "0 < (d - pi) / TWO_PI"
    using h by (simp add: TWO_PI_def)
  ultimately show "(d - TWO_PI, d) \<in> measure (\<lambda>d. nat \<lceil>(d - pi) / TWO_PI\<rceil>)"
    by simp
qed

function diff_up :: "real \<Rightarrow> real" where
  "diff_up d = (if d < - pi then diff_up (d + TWO_PI) else d)"
  by pat_completeness auto
termination
proof (relation "measure (\<lambda>d. nat \<lceil>(- pi - d) / TWO_PI\<rceil>)")
  show "wf (measure (\<lambda>d. nat \<lceil>(- pi - d) / TWO_PI\<rceil>))" by simp
next
  fix d :: real
  assume h: "d < - pi"
  have "(- pi - (d + TWO_PI)) / TWO_PI = (- pi - d) / TWO_PI - 1"
    by (simp add: TWO_PI_def field_simps)
  moreover have "0 < (- pi - d) / TWO_PI"
    using h by (simp add: TWO_PI_def)
  ultimately show "(d + TWO_PI, d) \<in> measure (\<lambda>d. nat \<lceil>(- pi - d) / TWO_PI\<rceil>)"
    by simp
qed

declare diff_down.simps [simp del] diff_up.simps [simp del]

definition smallestAngleDiff :: "real \<Rightarrow> real \<Rightarrow> real" where
  "smallestAngleDiff a b = diff_up (diff_down (a - b))"

section \<open>Configuration, obstacles and simulation state\<close>

text \<open>
  The \<^verbatim>\<open>state\<close> object. \<open>bladeCount\<close> and \<open>obstacleCount\<close> come from
  \<^verbatim>\<open>parseInt\<close>; the fields read through \<^verbatim>\<open>Number(v) || 0\<close> are kept as
  \<open>jsnum\<close>. The fields \<^verbatim>\<open>running\<close>, \<^verbatim>\<open>tailMs\<close> and \<^verbatim>\<open>voiceMode\<close> only
  concern audio playback and are left out.
\<close>

record state =
  rpm :: real
  bladeCount :: nat
  axisJitter :: real
  timingJitter :: jsnum
  softHitLowCut :: jsnum
  hitThreshold :: jsnum
  obstacleCount :: int
  wobbleFreqHz :: real
  impactDynamics :: jsnum

record obstacle =
  angle :: real
  sampleIndex :: int
  volume :: real
  enabled :: bool

text \<open>
  The module-level variables of the simulation. An entry \<open>None\<close> of \<open>lastHitRev\<close> is
  the initial value \<^verbatim>\<open>-Infinity\<close>.
\<close>

record sim =
  obstacles :: "obstacle list"
  wasInHitZone :: "bool list list"
  wobblePhasePerBlade :: "real list"
  lastHitRev :: "int option list list"
  simTime :: real

section \<open>Impact and tone mapping\<close>

text \<open>
  The argument is the value of \<^verbatim>\<open>Number(strength)\<close>; a missing argument defaults to
  0, which is also what \<^verbatim>\<open>Number(undefined) || 0\<close> gives.
\<close>

definition getSoftHitLowCutFactor :: "state \<Rightarrow> jsnum \<Rightarrow> real" where
  "getSoftHitLowCutFactor st strength =
     (let bias = clamp_num_or0 (softHitLowCut st) 0 1;
          strength01 = clamp_num_or0 strength 0 1;
          softness = 1 - strength01
      in bias * softness)"

definition getImpactStrength :: "state \<Rightarrow> jsnum \<Rightarrow> real" where
  "getImpactStrength st rawStrength =
     (let dyn = clamp_num_or0 (impactDynamics st) 0 1;
          r = clamp_num_or0 rawStrength 0 1
      in 1 - dyn * (1 - r))"

text \<open>
  The call \<^verbatim>\<open>getImpactStrength(v)\<close> for any value \<open>v\<close>: \<^verbatim>\<open>Number(v)\<close> is evaluated
  first and may throw.
\<close>

definition getImpactStrength_call :: "state \<Rightarrow> jsvalue \<Rightarrow> jserror + real" where
  "getImpactStrength_call st v =
     (case toNumber v of Inl e \<Rightarrow> Inl e | Inr n \<Rightarrow> Inr (getImpactStrength st n))"

text \<open>
  \<^verbatim>\<open>getImpactStrength\<close> with the rounding of its three operations: the subtraction
  \<^verbatim>\<open>1 - r\<close>, the product with \<open>dyn\<close> and the subtraction from 1. The clamps return one
  of their arguments and do not round.
\<close>

definition getImpactStrength_double :: "state \<Rightarrow> jsnum \<Rightarrow> real" where
  "getImpactStrength_double st rawStrength =
     (let dyn = clamp_num_or0 (impactDynamics st) 0 1;
          r = clamp_num_or0 rawStrength 0 1
      in fl (1 - fl (dyn * fl (1 - r))))"

section \<open>Hit gate and normaliser\<close>

text \<open>
  What \<^verbatim>\<open>registerCollision\<close> hands on for a hit that passes the gate: the values it
  logs and gives to \<^verbatim>\<open>playClick\<close>. The hit-rate log and the playback behind it are
  not modelled.
\<close>

record hit =
  rawStrength :: real
  strength :: real
  impact :: real
  hitObstacle :: obstacle
  obstacleIndex :: nat
  bladeIndex :: nat

definition registerCollision :: "state \<Rightarrow> real \<Rightarrow> obstacle \<Rightarrow> nat \<Rightarrow> nat \<Rightarrow> hit option" where
  "registerCollision st raw obs b oi =
     (let minStrength = 0.01 in
      if raw < minStrength then None
      else
        let threshold = clamp_num_or0 (hitThreshold st) 0 1 in
        if raw < threshold then None
        else
          let denom = 1 - threshold;
              normStrength = (if denom \<le> 1 / 100000 then 1 else (raw - threshold) / denom);
              str = clamp normStrength 0 1
          in Some \<lparr>rawStrength = raw, strength = str,
                    impact = getImpactStrength st (Fin str),
                    hitObstacle = obs, obstacleIndex = oi, bladeIndex = b\<rparr>)"

text \<open>The number of hits the gate accepts out of a sequence of raw strengths.\<close>

definition acceptedCount :: "state \<Rightarrow> obstacle \<Rightarrow> nat \<Rightarrow> nat \<Rightarrow> real list \<Rightarrow> nat" where
  "acceptedCount st obs b oi raws =
     length (filter (\<lambda>raw. registerCollision st raw obs b oi \<noteq> None) raws)"

section \<open>Hit-zone state and wobble phases\<close>

definition resetHitStates :: "state \<Rightarrow> sim \<Rightarrow> sim" where
  "resetHitStates st sm =
     sm\<lparr>wasInHitZone := replicate (bladeCount st) (replicate (length (obstacles sm)) False),
        lastHitRev := replicate (bladeCount st) (replicate (length (obstacles sm)) None)\<rparr>"

definition ensureHitStateSize :: "state \<Rightarrow> sim \<Rightarrow> sim" where
  "ensureHitStateSize st sm =
     (if length (wasInHitZone sm) \<noteq> bladeCount st \<or> length (lastHitRev sm) \<noteq> bladeCount st
      then resetHitStates st sm
      else if list_ex (\<lambda>b. length (wasInHitZone sm ! b) \<noteq> length (obstacles sm) \<or>
                            length (lastHitRev sm ! b) \<noteq> length (obstacles sm))
                [0..<bladeCount st]
      then resetHitStates st sm
      else sm)"

definition resetWobblePhases :: "state \<Rightarrow> sim \<Rightarrow> sim" where
  "resetWobblePhases st sm =
     (if bladeCount st \<le> 0 then sm\<lparr>wobblePhasePerBlade := []\<rparr>
      else sm\<lparr>wobblePhasePerBlade :=
             map (\<lambda>b. (TWO_PI * real b) / real (bladeCount st)) [0..<bladeCount st]\<rparr>)"

definition ensureWobblePhaseSize :: "state \<Rightarrow> sim \<Rightarrow> sim" where
  "ensureWobblePhaseSize st sm =
     (if length (wobblePhasePerBlade sm) \<noteq> bladeCount st then resetWobblePhases st sm else sm)"


section \<open>Obstacle angles\<close>





section \<open>Simulation step\<close>

text \<open>
  A call of \<^verbatim>\<open>registerCollision\<close> made by the detector: its arguments, the simulation
  time at the call and what the gate made of it. The calls are collected in a log, in order.
\<close>

record call =
  callRaw :: real
  callBlade :: nat
  callObstacle :: nat
  callTime :: real
  callResult :: "hit option"

type_synonym world = "sim \<times> call list"

text \<open>
  \<^verbatim>\<open>xs[b]?.[o] ?? d\<close>, and the write \<^verbatim>\<open>xs[b][o] = v\<close>. The detector runs after
  \<^verbatim>\<open>ensureHitStateSize\<close>, so the row \<open>b\<close> exists and has an entry \<open>o\<close> at every
  write (lemmas \<open>sized_ensureHitStateSize\<close> and \<open>sized_pairStep\<close>); the source's branches
  that create a missing row are never taken.
\<close>

definition get2 :: "'a list list \<Rightarrow> nat \<Rightarrow> nat \<Rightarrow> 'a \<Rightarrow> 'a" where
  "get2 xs b oi d = (if b < length xs \<and> oi < length (xs ! b) then xs ! b ! oi else d)"

definition set2 :: "'a list list \<Rightarrow> nat \<Rightarrow> nat \<Rightarrow> 'a \<Rightarrow> 'a list list" where
  "set2 xs b oi v = xs[b := (xs ! b)[oi := v]]"

text \<open>\<^verbatim>\<open>revIndex > lastRev\<close>, where \<open>lastRev\<close> may be \<^verbatim>\<open>-Infinity\<close>.\<close>

fun rev_gt :: "int \<Rightarrow> int option \<Rightarrow> bool" where
  "rev_gt r None = True"
| "rev_gt r (Some l) = (r > l)"

text \<open>The quantities computed in the loop body, under the names the source gives them.\<close>

definition omegaOf :: "state \<Rightarrow> real" where
  "omegaOf st = (rpm st / 60) * TWO_PI"

definition revIndexAt :: "state \<Rightarrow> real \<Rightarrow> int" where
  "revIndexAt st t = \<lfloor>(omegaOf st * t) / TWO_PI\<rfloor>"

definition bladeAngle :: "state \<Rightarrow> real \<Rightarrow> nat \<Rightarrow> real" where
  "bladeAngle st baseAngle b =
     js_rem (baseAngle + (TWO_PI * real b) / real (bladeCount st)) TWO_PI"

definition wobbleAt :: "state \<Rightarrow> real \<Rightarrow> real \<Rightarrow> real \<Rightarrow> real" where
  "wobbleAt st t phase rand =
     (let wobbleOmega = TWO_PI * max (wobbleFreqHz st) 0;
          noiseRatio = 0.15;
          jitterFactor = clamp_num_or0 (timingJitter st) 0 1;
          deterministicWobble = axisJitter st * sin (wobbleOmega * t + phase);
          noise = axisJitter st * noiseRatio * jitterFactor * (rand * 2 - 1)
      in deterministicWobble + noise)"

definition rawStrengthAt :: "real \<Rightarrow> real \<Rightarrow> real" where
  "rawStrengthAt wobbleAdjustedAngle obsAngle =
     (let angleDiff = smallestAngleDiff wobbleAdjustedAngle obsAngle;
          effective = \<bar>angleDiff\<bar>
      in clamp (1 - effective / HIT_ANGLE_TOL) 0 1)"

text \<open>The body of the obstacle loop, for blade \<open>b\<close> and obstacle \<open>oi\<close>.\<close>

definition pairStep :: "state \<Rightarrow> int \<Rightarrow> real \<Rightarrow> real \<Rightarrow> nat \<Rightarrow> nat \<Rightarrow> world \<Rightarrow> world" where
  "pairStep st revIndex ang wobble b oi w =
     (let sm = fst w; calls = snd w;
          obs = obstacles sm ! oi;
          wobbleAdjustedAngle = ang + wobble;
          raw = rawStrengthAt wobbleAdjustedAngle (angle obs);
          inZone = (raw > 0);
          prev = get2 (wasInHitZone sm) b oi False;
          w1 = (if \<not> prev \<and> inZone
                then
                  let lastRev = get2 (lastHitRev sm) b oi None in
                  if rev_gt revIndex lastRev
                  then (sm\<lparr>lastHitRev := set2 (lastHitRev sm) b oi (Some revIndex)\<rparr>,
                        calls @ [\<lparr>callRaw = raw, callBlade = b, callObstacle = oi,
                                 callTime = simTime sm,
                                 callResult = registerCollision st raw obs b oi\<rparr>])
                  else (sm, calls)
                else (sm, calls))
      in ((fst w1)\<lparr>wasInHitZone := set2 (wasInHitZone (fst w1)) b oi inZone\<rparr>, snd w1))"

text \<open>The body of the blade loop; \<open>rand\<close> is the value of \<^verbatim>\<open>Math.random()\<close>.\<close>

definition bladePass :: "state \<Rightarrow> real \<Rightarrow> int \<Rightarrow> real \<Rightarrow> nat \<Rightarrow> world \<Rightarrow> world" where
  "bladePass st baseAngle revIndex rand b w =
     (let sm = fst w;
          ang = bladeAngle st baseAngle b;
          phase = (if b < length (wobblePhasePerBlade sm) then wobblePhasePerBlade sm ! b else 0);
          wobble = wobbleAt st (simTime sm) phase rand
      in fold (pairStep st revIndex ang wobble b) [0..<length (obstacles sm)] w)"

text \<open>One sub-step of size \<open>h\<close>; \<open>rands b\<close> is the random draw for blade \<open>b\<close>.\<close>

definition substep :: "state \<Rightarrow> real \<Rightarrow> (nat \<Rightarrow> real) \<Rightarrow> world \<Rightarrow> world" where
  "substep st h rands w =
     (let sm = (fst w)\<lparr>simTime := simTime (fst w) + h\<rparr>;
          baseAngle = omegaOf st * simTime sm;
          revIndex = \<lfloor>baseAngle / TWO_PI\<rfloor>
      in fold (\<lambda>b. bladePass st baseAngle revIndex (rands b) b) [0..<bladeCount st] (sm, snd w))"

definition substeps :: nat where
  "substeps = 4"

text \<open>
  \<^verbatim>\<open>stepSimulation(dt)\<close>; \<open>rnd s b\<close> is the random draw of sub-step \<open>s\<close> for blade \<open>b\<close>.
\<close>

definition stepSimulation :: "state \<Rightarrow> (nat \<Rightarrow> nat \<Rightarrow> real) \<Rightarrow> real \<Rightarrow> world \<Rightarrow> world" where
  "stepSimulation st rnd dt w =
     (if dt \<le> 0 then w
      else if omegaOf st \<le> 0 then w
      else
        let h = dt / real substeps;
            sm = ensureWobblePhaseSize st (ensureHitStateSize st (fst w))
        in fold (\<lambda>s. substep st h (rnd s)) [0..<substeps] (sm, snd w))"

text \<open>
  The driving loop: one \<^verbatim>\<open>stepSimulation\<close> per frame, each with its elapsed time and
  its random draws, the configuration and the obstacles untouched in between.
\<close>

fun runFrames :: "state \<Rightarrow> ((nat \<Rightarrow> nat \<Rightarrow> real) \<times> real) list \<Rightarrow> world \<Rightarrow> world" where
  "runFrames st [] w = w"
| "runFrames st (f # fs) w = runFrames st fs (stepSimulation st (fst f) (snd f) w)"

section \<open>Initial values\<close>

text \<open>The \<^verbatim>\<open>state\<close> object and the module variables as the script initialises them.\<close>

definition initialState :: state where
  "initialState =
     \<lparr>rpm = 200, bladeCount = 3, axisJitter = 0.1, timingJitter = Fin 0.3,
      softHitLowCut = Fin 0.4, hitThreshold = Fin 0.12, obstacleCount = 3,
      wobbleFreqHz = 3.0, impactDynamics = Fin 0.4\<rparr>"

definition initialSim :: sim where
  "initialSim =
     \<lparr>obstacles = [], wasInHitZone = [], wobblePhasePerBlade = [], lastHitRev = [],
      simTime = 0\<rparr>"

section \<open>Notions used in the statements\<close>

text \<open>The hit-zone arrays have one row per blade and one entry per obstacle in each row.\<close>

definition sized :: "state \<Rightarrow> sim \<Rightarrow> bool" where
  "sized st sm \<longleftrightarrow>
     length (wasInHitZone sm) = bladeCount st \<and> length (lastHitRev sm) = bladeCount st \<and>
     list_all (\<lambda>row. length row = length (obstacles sm)) (wasInHitZone sm) \<and>
     list_all (\<lambda>row. length row = length (obstacles sm)) (lastHitRev sm)"

text \<open>The pair and the revolution of a call: the revolution index at the time of the call.\<close>

definition callKey :: "state \<Rightarrow> call \<Rightarrow> nat \<times> nat \<times> int" where
  "callKey st c = (callBlade c, callObstacle c, revIndexAt st (callTime c))"

text \<open>
  The log agrees with the recorded revolutions: the arrays are sized, no two calls of the log
  have the same pair and revolution, and the revolution of every call is at most the one
  recorded for its pair.
\<close>

definition recorded :: "state \<Rightarrow> world \<Rightarrow> bool" where
  "recorded st w \<longleftrightarrow>
     sized st (fst w) \<and> distinct (map (callKey st) (snd w)) \<and>
     list_all (\<lambda>c. case get2 (lastHitRev (fst w)) (callBlade c) (callObstacle c) None of
                      None \<Rightarrow> False
                    | Some r \<Rightarrow> revIndexAt st (callTime c) \<le> r) (snd w)"

text \<open>An obstacle at angle 0 that plays the noise voice, for the examples.\<close>

definition someObstacle :: obstacle where
  "someObstacle = \<lparr>angle = 0, sampleIndex = - 1, volume = 1, enabled = True\<rparr>"

text \<open>One obstacle at angle 0 and sized arrays for one blade, for the examples.\<close>

definition oneObstacleSim :: sim where
  "oneObstacleSim =
     \<lparr>obstacles = [someObstacle], wasInHitZone = [[False]], wobblePhasePerBlade = [0],
      lastHitRev = [[None]], simTime = 0\<rparr>"

text \<open>One blade at 60 revolutions per minute without wobble, for the examples.\<close>

definition sweepState :: state where
  "sweepState = initialState\<lparr>rpm := 60, bladeCount := 1, axisJitter := 0\<rparr>"

section \<open>Basic facts\<close>

lemma TWO_PI_pos: "0 < TWO_PI"
  by (simp add: TWO_PI_def)

lemma clamp_bounds: "mn \<le> mx \<Longrightarrow> mn \<le> clamp v mn mx \<and> clamp v mn mx \<le> mx"
  by (simp add: clamp_def)

lemma clamp_mono: "v \<le> v' \<Longrightarrow> clamp v mn mx \<le> clamp v' mn mx"
  by (simp add: clamp_def min_def max_def)

lemma clamp_num_or0_bounds:
  "mn \<le> mx \<Longrightarrow> mn \<le> clamp_num_or0 v mn mx \<and> clamp_num_or0 v mn mx \<le> mx"
  by (cases v) (simp_all add: clamp_def)

lemma unit_mix_bounds:
  fixes d r :: real
  assumes "0 \<le> d" "d \<le> 1" "0 \<le> r" "r \<le> 1"
  shows "0 \<le> 1 - d * (1 - r) \<and> 1 - d * (1 - r) \<le> 1"
proof -
  have "0 \<le> d * (1 - r)" using assms by simp
  moreover have "d * (1 - r) \<le> 1 * 1"
    using assms by (intro mult_mono) simp_all
  ultimately show ?thesis by simp
qed

section \<open>The angle difference\<close>

lemma diff_down_le: "diff_down d \<le> pi"
  by (induction d rule: diff_down.induct) (simp add: diff_down.simps)

lemma diff_up_bounds: "d \<le> pi \<Longrightarrow> - pi \<le> diff_up d \<and> diff_up d \<le> pi"
proof (induction d rule: diff_up.induct)
  case (1 d)
  show ?case
  proof (cases "d < - pi")
    case True
    then have "d + TWO_PI \<le> pi" by (simp add: TWO_PI_def)
    with 1 True show ?thesis by (simp add: diff_up.simps)
  next
    case False
    with 1 show ?thesis by (simp add: diff_up.simps)
  qed
qed

lemma smallestAngleDiff_bounds:
  "- pi \<le> smallestAngleDiff a b \<and> smallestAngleDiff a b \<le> pi"
  unfolding smallestAngleDiff_def using diff_up_bounds [OF diff_down_le] by blast

lemma smallestAngleDiff_id:
  "- pi \<le> a - b \<Longrightarrow> a - b \<le> pi \<Longrightarrow> smallestAngleDiff a b = a - b"
  by (simp add: smallestAngleDiff_def diff_down.simps diff_up.simps)

lemma rawStrengthAt_near:
  assumes "0 \<le> a - b" "a - b \<le> 1 / 4"
  shows "rawStrengthAt a b = 1 - (a - b) * 4"
proof -
  have "a - b \<le> pi" using assms pi_ge_two by simp
  moreover have "- pi \<le> a - b" using assms pi_ge_two by simp
  ultimately have "smallestAngleDiff a b = a - b" by (simp add: smallestAngleDiff_id)
  then show ?thesis
    using assms by (simp add: rawStrengthAt_def Let_def clamp_def HIT_ANGLE_TOL_def)
qed

lemma smallestAngleDiff_one_pass:
  assumes "\<bar>a - b\<bar> \<le> 3 * pi"
  shows "smallestAngleDiff a b =
           (if a - b > pi then a - b - 2 * pi
            else if a - b < - pi then a - b + 2 * pi
            else a - b)"
proof -
  consider (hi) "pi < a - b" | (lo) "a - b < - pi" | (mid) "- pi \<le> a - b \<and> a - b \<le> pi"
    by linarith
  then show ?thesis
  proof cases
    case hi
    have le: "a - b - TWO_PI \<le> pi" using assms by (simp add: TWO_PI_def abs_le_iff)
    have ge: "- pi \<le> a - b - TWO_PI" using hi by (simp add: TWO_PI_def)
    have "diff_down (a - b) = diff_down (a - b - TWO_PI)"
      using hi by (subst diff_down.simps) simp
    also have "\<dots> = a - b - TWO_PI"
      using le by (subst diff_down.simps) simp
    finally have "smallestAngleDiff a b = a - b - TWO_PI"
      using ge by (simp add: smallestAngleDiff_def diff_up.simps)
    then show ?thesis using hi by (simp add: TWO_PI_def)
  next
    case lo
    have le: "a - b + TWO_PI \<le> pi" using lo by (simp add: TWO_PI_def)
    have ge: "- pi \<le> a - b + TWO_PI" using assms by (simp add: TWO_PI_def abs_le_iff)
    have not_hi: "\<not> pi < a - b" using lo pi_gt_zero by linarith
    then have "diff_down (a - b) = a - b"
      by (subst diff_down.simps) simp
    moreover have "diff_up (a - b) = diff_up (a - b + TWO_PI)"
      using lo by (subst diff_up.simps) simp
    moreover have "diff_up (a - b + TWO_PI) = a - b + TWO_PI"
      using ge by (subst diff_up.simps) simp
    ultimately have "smallestAngleDiff a b = a - b + TWO_PI"
      by (simp add: smallestAngleDiff_def)
    then show ?thesis using lo not_hi by (simp add: TWO_PI_def)
  next
    case mid
    then have "smallestAngleDiff a b = a - b" by (simp add: smallestAngleDiff_id)
    then show ?thesis using mid by simp
  qed
qed

text \<open>
  Claim C4, as the code has it, for a difference of at most \<open>3\<pi>\<close> in size: at most one pass
  of one loop runs, the result is \<open>a - b - 2\<pi>\<close> when \<open>a - b > \<pi>\<close>, \<open>a - b + 2\<pi>\<close> when
  \<open>a - b < -\<pi>\<close> and \<open>a - b\<close> otherwise; it is congruent to \<open>a - b\<close> modulo \<open>2\<pi>\<close>, at least
  \<open>-\<pi>\<close> and at most \<open>\<pi>\<close>: the interval is closed at both ends. The simulation step stays
  within this bound while the wobble is at most \<open>\<pi>\<close> in size (lemma \<open>adjusted_angle_gap\<close>).
\<close>

theorem C4_smallestAngleDiff_bounded:
  assumes "\<bar>a - b\<bar> \<le> 3 * pi"
  shows "smallestAngleDiff a b =
           (if a - b > pi then a - b - 2 * pi
            else if a - b < - pi then a - b + 2 * pi
            else a - b) \<and>
         - pi \<le> smallestAngleDiff a b \<and> smallestAngleDiff a b \<le> pi \<and>
         (\<exists>k::int. \<bar>k\<bar> \<le> 1 \<and> smallestAngleDiff a b = a - b + of_int k * (2 * pi))"
proof -
  note one = smallestAngleDiff_one_pass [OF assms]
  have "smallestAngleDiff a b = a - b + of_int (- 1) * (2 * pi) \<or>
        smallestAngleDiff a b = a - b + of_int 1 * (2 * pi) \<or>
        smallestAngleDiff a b = a - b + of_int 0 * (2 * pi)"
    unfolding one by simp
  then have "\<exists>k::int. \<bar>k\<bar> \<le> 1 \<and> smallestAngleDiff a b = a - b + of_int k * (2 * pi)"
    by (metis abs_minus_cancel abs_one abs_zero order_refl zero_le_one)
  then show ?thesis using one smallestAngleDiff_bounds [of a b] by simp
qed

theorem C4_smallestAngleDiff_bounded_witness:
  "\<bar>5 - 0 :: real\<bar> \<le> 3 * pi \<and> smallestAngleDiff 5 0 = 5 - 2 * pi \<and>
   \<bar>0 - pi\<bar> \<le> 3 * pi \<and> smallestAngleDiff 0 pi = - pi"
proof -
  have p: "\<bar>5 - 0 :: real\<bar> \<le> 3 * pi" using pi_ge_two by simp
  have q: "\<bar>0 - pi\<bar> \<le> 3 * pi" by simp
  have "pi < 5" using pi_less_4 by simp
  then have "smallestAngleDiff 5 0 = 5 - 2 * pi"
    using C4_smallestAngleDiff_bounded [OF p] by simp
  moreover have "smallestAngleDiff 0 pi = - pi"
    using C4_smallestAngleDiff_bounded [OF q] by simp
  ultimately show ?thesis using p q by (intro conjI)
qed

text \<open>
  Claim C4 as stated fails: for \<open>a = 0\<close> and \<open>b = \<pi>\<close> the difference \<open>-\<pi>\<close> enters neither
  loop and is returned, so the result is not strictly greater than \<open>-\<pi>\<close>.
\<close>

theorem C4_smallestAngleDiff_minus_pi:
  "smallestAngleDiff 0 pi = - pi \<and> \<not> (- pi < smallestAngleDiff 0 pi)"
  by (simp add: smallestAngleDiff_def diff_down.simps diff_up.simps)

section \<open>The impact and tone mappers\<close>

subsection \<open>Rounding\<close>

lemma ulp_exp_eq:
  assumes "2 powi e \<le> \<bar>x\<bar>" "\<bar>x\<bar> < 2 powi (e + 1)" "- 1022 \<le> e"
  shows "ulp_exp x = e - 52"
proof -
  have pos: "0 < \<bar>x\<bar>" using assms(1) zero_less_power_int [of "2::real" e] by linarith
  have "of_int e \<le> log 2 \<bar>x\<bar>"
    using assms(1) pos by (simp add: le_log_iff powr_real_of_int')
  moreover have "log 2 \<bar>x\<bar> < of_int (e + 1)"
    using assms(2) pos by (simp add: log_less_iff powr_real_of_int' del: of_int_add)
  ultimately have "\<lfloor>log 2 \<bar>x\<bar>\<rfloor> = e" by (simp add: floor_eq_iff)
  then show ?thesis using assms(3) by (simp add: ulp_exp_def)
qed

lemma rne_int: "rne (of_int n) = n"
  by (simp add: rne_def)

lemma rne_half_even: "even n \<Longrightarrow> rne (of_int n + 1 / 2) = n"
proof -
  assume e: "even n"
  have "\<lfloor>of_int n + 1 / 2 :: real\<rfloor> = n" by (simp add: floor_eq_iff)
  then show ?thesis using e by (simp add: rne_def)
qed

lemma fl_eval:
  assumes "2 powi e \<le> \<bar>x\<bar>" "\<bar>x\<bar> < 2 powi (e + 1)" "- 1022 \<le> e"
    and "x / 2 powi (e - 52) = q"
  shows "fl x = of_int (rne q) * 2 powi (e - 52)"
proof -
  have "x \<noteq> 0"
  proof
    assume "x = 0"
    with assms(1) have "(2::real) powi e \<le> 0" by simp
    moreover have "0 < (2::real) powi e" by (rule zero_less_power_int) simp
    ultimately show False by linarith
  qed
  then show ?thesis
    using ulp_exp_eq [OF assms(1-3)] assms(4) by (simp add: fl_def)
qed

lemma rne_numeral: "rne (numeral n) = numeral n"
  using rne_int [of "numeral n"] by simp

lemma fl_zero: "fl 0 = 0"
  by (simp add: fl_def)

lemma fl_one: "fl 1 = 1"
proof -
  have "(1::real) / 2 powi (0 - 52) = of_int (2 ^ 52)" by simp
  then have "fl 1 = of_int (rne (of_int (2 ^ 52))) * 2 powi (0 - 52)"
    by (intro fl_eval) simp_all
  then show ?thesis by (simp add: rne_numeral)
qed

lemma rne_error: "\<bar>of_int (rne q) - q\<bar> \<le> 1 / 2"
proof -
  have "0 \<le> q - of_int \<lfloor>q\<rfloor>" "q - of_int \<lfloor>q\<rfloor> < 1" by linarith+
  then show ?thesis by (auto simp: rne_def Let_def abs_le_iff)
qed

lemma fl_error: "\<bar>fl x - x\<bar> \<le> 2 powi ulp_exp x / 2"
proof (cases "x = 0")
  case True
  then show ?thesis by (simp add: fl_def)
next
  case False
  define u :: real where "u = 2 powi ulp_exp x"
  have u: "0 < u" by (simp add: u_def)
  have "fl x - x = (of_int (rne (x / u)) - x / u) * u"
    using False u by (simp add: fl_def u_def left_diff_distrib)
  then have "\<bar>fl x - x\<bar> = \<bar>of_int (rne (x / u)) - x / u\<bar> * u"
    using u by (simp add: abs_mult)
  also have "\<dots> \<le> 1 / 2 * u"
    using rne_error [of "x / u"] u by (intro mult_right_mono) simp_all
  finally show ?thesis by (simp add: u_def)
qed

lemma fl_error_below_two:
  assumes "\<bar>x\<bar> < 2"
  shows "\<bar>fl x - x\<bar> \<le> 1 / 2 ^ 53"
proof (cases "x = 0")
  case True
  then show ?thesis by (simp add: fl_def)
next
  case False
  then have pos: "0 < \<bar>x\<bar>" by simp
  have "log 2 \<bar>x\<bar> < 1" using assms pos by (simp add: log_less_iff)
  then have "\<lfloor>log 2 \<bar>x\<bar>\<rfloor> \<le> 0" by (simp add: floor_le_iff)
  then have "ulp_exp x \<le> - 52" by (simp add: ulp_exp_def)
  then have "(2::real) powi ulp_exp x \<le> 2 powi (- 52)"
    by (intro power_int_increasing) simp_all
  then have "2 powi ulp_exp x / 2 \<le> (1 / 2 ^ 53 :: real)" by simp
  then show ?thesis using fl_error [of x] by linarith
qed

lemma double_passthrough_error:
  assumes "0 \<le> r" "r \<le> 1"
  shows "\<bar>fl (1 - fl (1 * fl (1 - r))) - r\<bar> \<le> 3 / 2 ^ 53"
proof -
  define eps :: real where "eps = 1 / 2 ^ 53"
  have eps: "0 < eps" "eps < 1 / 4" by (simp_all add: eps_def)
  define t1 where "t1 = fl (1 - r)"
  define t2 where "t2 = fl (1 * t1)"
  define t3 where "t3 = fl (1 - t2)"
  have e1: "\<bar>t1 - (1 - r)\<bar> \<le> eps"
    unfolding t1_def eps_def using assms by (intro fl_error_below_two) simp
  then have "\<bar>t1\<bar> < 2" using assms eps by (simp add: abs_le_iff abs_less_iff)
  then have e2: "\<bar>t2 - t1\<bar> \<le> eps"
    unfolding t2_def eps_def using fl_error_below_two [of t1] by simp
  then have "\<bar>1 - t2\<bar> < 2" using e1 assms eps by (simp add: abs_le_iff abs_less_iff)
  then have e3: "\<bar>t3 - (1 - t2)\<bar> \<le> eps"
    unfolding t3_def eps_def by (intro fl_error_below_two)
  have "\<bar>t3 - r\<bar> \<le> 3 * eps" using e1 e2 e3 by (simp add: abs_le_iff)
  then show ?thesis by (simp add: t3_def t2_def t1_def eps_def)
qed

lemma double_example:
  "fl (1 - fl (1 * fl (1 - 5404319552844595 / 2 ^ 54))) = 5404319552844596 / 2 ^ 54"
proof -
  have s1: "fl (1 - 5404319552844595 / 2 ^ 54) = 6305039478318694 / 2 ^ 53"
  proof -
    have "(1 - 5404319552844595 / 2 ^ 54 :: real) / 2 powi (- 1 - 52)
            = of_int 6305039478318694 + 1 / 2"
      by simp
    then have "fl (1 - 5404319552844595 / 2 ^ 54)
            = of_int (rne (of_int 6305039478318694 + 1 / 2)) * 2 powi (- 1 - 52)"
      by (intro fl_eval) simp_all
    also have "rne (of_int 6305039478318694 + 1 / 2) = 6305039478318694"
      by (rule rne_half_even) simp
    finally show ?thesis by simp
  qed
  have s2: "fl (1 * (6305039478318694 / 2 ^ 53)) = 6305039478318694 / 2 ^ 53"
  proof -
    have "(1 * (6305039478318694 / 2 ^ 53) :: real) / 2 powi (- 1 - 52)
            = of_int 6305039478318694"
      by simp
    then have "fl (1 * (6305039478318694 / 2 ^ 53))
            = of_int (rne (of_int 6305039478318694)) * 2 powi (- 1 - 52)"
      by (intro fl_eval) simp_all
    then show ?thesis by (simp only: rne_int) simp
  qed
  have s3: "fl (1 - 6305039478318694 / 2 ^ 53) = 5404319552844596 / 2 ^ 54"
  proof -
    have "(1 - 6305039478318694 / 2 ^ 53 :: real) / 2 powi (- 2 - 52)
            = of_int 5404319552844596"
      by simp
    then have "fl (1 - 6305039478318694 / 2 ^ 53)
            = of_int (rne (of_int 5404319552844596)) * 2 powi (- 2 - 52)"
      by (intro fl_eval) simp_all
    then show ?thesis by (simp only: rne_int) simp
  qed
  show ?thesis by (simp only: s1 s2 s3)
qed

lemma fl_three_tenths: "fl (3 / 10) = 5404319552844595 / 2 ^ 54"
proof -
  have "(3 / 10 :: real) / 2 powi (- 2 - 52) = of_int 5404319552844595 + 1 / 5"
    by simp
  then have "fl (3 / 10) = of_int (rne (of_int 5404319552844595 + 1 / 5)) * 2 powi (- 2 - 52)"
    by (intro fl_eval) simp_all
  moreover have "\<lfloor>of_int 5404319552844595 + 1 / 5 :: real\<rfloor> = 5404319552844595"
    by (simp add: floor_eq_iff)
  then have "rne (of_int 5404319552844595 + 1 / 5) = 5404319552844595"
    unfolding rne_def Let_def by simp
  ultimately show ?thesis by simp
qed

subsection \<open>The impact mapper\<close>

text \<open>
  Claim C7, as the code has it: \<^verbatim>\<open>getImpactStrength\<close> throws for a Symbol, which
  \<^verbatim>\<open>Number\<close> does not convert; for every other argument, numeric or not, and every
  setting it returns a number. In exact arithmetic that number is between 0 and 1; for a
  numeric strength \<open>x\<close> and setting \<open>d\<close> it is \<open>1 - clamp d 0 1 * (1 - clamp x 0 1)\<close>, a
  strength that is not a number counting as 0. With \<open>impactDynamics = 0\<close> it is 1 whatever
  the strength, with rounding too. With \<open>impactDynamics = 1\<close> it is the clamped strength in
  exact arithmetic; with rounding it is within \<open>3 / 2 ^ 53\<close> of the clamped strength.
\<close>

theorem C7_getImpactStrength:
  "getImpactStrength_call st SymbolValue = Inl TypeError \<and>
   getImpactStrength_call st (Converts s) = Inr (getImpactStrength st s) \<and>
   0 \<le> getImpactStrength st s \<and> getImpactStrength st s \<le> 1 \<and>
   getImpactStrength (st\<lparr>impactDynamics := Fin d\<rparr>) (Fin x) = 1 - clamp d 0 1 * (1 - clamp x 0 1) \<and>
   getImpactStrength st NaN = 1 - clamp_num_or0 (impactDynamics st) 0 1 \<and>
   getImpactStrength (st\<lparr>impactDynamics := Fin 0\<rparr>) s = 1 \<and>
   getImpactStrength_double (st\<lparr>impactDynamics := Fin 0\<rparr>) s = 1 \<and>
   getImpactStrength (st\<lparr>impactDynamics := Fin 1\<rparr>) s = clamp_num_or0 s 0 1 \<and>
   \<bar>getImpactStrength_double (st\<lparr>impactDynamics := Fin 1\<rparr>) s - clamp_num_or0 s 0 1\<bar>
     \<le> 3 / 2 ^ 53"
proof -
  have rng: "0 \<le> getImpactStrength st s \<and> getImpactStrength st s \<le> 1"
    unfolding getImpactStrength_def Let_def
    using clamp_num_or0_bounds [of 0 1 "impactDynamics st"] clamp_num_or0_bounds [of 0 1 s]
    by (intro unit_mix_bounds) simp_all
  have call: "getImpactStrength_call st SymbolValue = Inl TypeError \<and>
      getImpactStrength_call st (Converts s) = Inr (getImpactStrength st s)"
    by (simp add: getImpactStrength_call_def toNumber_def)
  have exact: "getImpactStrength (st\<lparr>impactDynamics := Fin d\<rparr>) (Fin x)
        = 1 - clamp d 0 1 * (1 - clamp x 0 1) \<and>
      getImpactStrength st NaN = 1 - clamp_num_or0 (impactDynamics st) 0 1 \<and>
      getImpactStrength (st\<lparr>impactDynamics := Fin 0\<rparr>) s = 1 \<and>
      getImpactStrength (st\<lparr>impactDynamics := Fin 1\<rparr>) s = clamp_num_or0 s 0 1"
    by (simp add: getImpactStrength_def clamp_def)
  have flat: "getImpactStrength_double (st\<lparr>impactDynamics := Fin 0\<rparr>) s = 1"
    by (simp add: getImpactStrength_double_def clamp_def fl_zero fl_one)
  have near: "\<bar>getImpactStrength_double (st\<lparr>impactDynamics := Fin 1\<rparr>) s - clamp_num_or0 s 0 1\<bar>
      \<le> 3 / 2 ^ 53"
    using double_passthrough_error [of "clamp_num_or0 s 0 1"] clamp_num_or0_bounds [of 0 1 s]
    by (simp add: getImpactStrength_double_def clamp_def)
  show ?thesis using rng call exact flat near by (intro conjI) simp_all
qed

text \<open>
  Claim C7 as stated fails twice. The call with a Symbol throws, so the function is not
  total for every input. And with \<open>impactDynamics = 1\<close> the strength 0.3, the binary64 value
  \<open>5404319552844595 / 2 ^ 54\<close>, comes back as \<open>5404319552844596 / 2 ^ 54\<close>
  (0.30000000000000004): \<open>1 - 0.3\<close> lies halfway between two binary64 values and is rounded
  down.
\<close>

theorem C7_symbol_throws_passthrough_rounds:
  "getImpactStrength_call initialState SymbolValue = Inl TypeError \<and>
   fl (3 / 10) = 5404319552844595 / 2 ^ 54 \<and>
   clamp_num_or0 (Fin (5404319552844595 / 2 ^ 54)) 0 1 = 5404319552844595 / 2 ^ 54 \<and>
   getImpactStrength_double (initialState\<lparr>impactDynamics := Fin 1\<rparr>)
     (Fin (5404319552844595 / 2 ^ 54)) = 5404319552844596 / 2 ^ 54"
proof -
  have "getImpactStrength_double (initialState\<lparr>impactDynamics := Fin 1\<rparr>)
     (Fin (5404319552844595 / 2 ^ 54)) = fl (1 - fl (1 * fl (1 - 5404319552844595 / 2 ^ 54)))"
    by (simp add: getImpactStrength_double_def clamp_def)
  then have "getImpactStrength_double (initialState\<lparr>impactDynamics := Fin 1\<rparr>)
     (Fin (5404319552844595 / 2 ^ 54)) = 5404319552844596 / 2 ^ 54"
    by (simp only: double_example)
  moreover have "clamp_num_or0 (Fin (5404319552844595 / 2 ^ 54)) 0 1 = 5404319552844595 / 2 ^ 54"
    by (simp add: clamp_def)
  moreover have "getImpactStrength_call initialState SymbolValue = Inl TypeError"
    by (simp add: getImpactStrength_call_def toNumber_def)
  ultimately show ?thesis using fl_three_tenths by (intro conjI)
qed

subsection \<open>The tone mapper\<close>

text \<open>
  Claim C8: \<^verbatim>\<open>getSoftHitLowCutFactor\<close> is \<open>bias * (1 - clamp strength 0 1)\<close> with
  \<open>bias = clamp softHitLowCut 0 1\<close>; for a fixed bias a larger strength never gives a
  larger factor; and with \<open>softHitLowCut = 0\<close> the factor is 0 for every strength.
\<close>

theorem C8_getSoftHitLowCutFactor:
  "getSoftHitLowCutFactor (st\<lparr>softHitLowCut := Fin bb\<rparr>) (Fin x) = clamp bb 0 1 * (1 - clamp x 0 1) \<and>
   (x \<le> y \<longrightarrow> getSoftHitLowCutFactor st (Fin y) \<le> getSoftHitLowCutFactor st (Fin x)) \<and>
   getSoftHitLowCutFactor (st\<lparr>softHitLowCut := Fin 0\<rparr>) s = 0"
proof -
  have "getSoftHitLowCutFactor st (Fin y) \<le> getSoftHitLowCutFactor st (Fin x)" if "x \<le> y"
  proof -
    have "0 \<le> clamp_num_or0 (softHitLowCut st) 0 1"
      using clamp_num_or0_bounds [of 0 1 "softHitLowCut st"] by simp
    moreover have "1 - clamp y 0 1 \<le> 1 - clamp x 0 1"
      using clamp_mono [OF that, of 0 1] by simp
    ultimately show ?thesis
      by (simp add: getSoftHitLowCutFactor_def mult_left_mono)
  qed
  then show ?thesis
    by (simp add: getSoftHitLowCutFactor_def clamp_def)
qed

theorem C8_getSoftHitLowCutFactor_witness:
  "(0.2::real) \<le> 0.7 \<and>
   getSoftHitLowCutFactor initialState (Fin 0.7) \<le> getSoftHitLowCutFactor initialState (Fin 0.2) \<and>
   getSoftHitLowCutFactor initialState (Fin 0.2) = 0.32"
  using C8_getSoftHitLowCutFactor [where st = initialState and x = "0.2" and y = "0.7"]
  by (simp add: getSoftHitLowCutFactor_def initialState_def clamp_def)

section \<open>The hit gate\<close>

lemma registerCollision_None_iff:
  "registerCollision st raw obs b oi = None \<longleftrightarrow>
     raw < 0.01 \<or> raw < clamp_num_or0 (hitThreshold st) 0 1"
  by (simp add: registerCollision_def Let_def)

text \<open>
  Claim C1, as the code has it: \<^verbatim>\<open>registerCollision\<close> discards a raw strength below
  0.01 or below the threshold \<open>thr = clamp hitThreshold 0 1\<close>. Otherwise it accepts the hit
  with strength \<open>clamp ((raw - thr) / (1 - thr)) 0 1\<close>, or 1 when \<open>1 - thr \<le> 1e-5\<close>. The
  strength of an accepted hit is in [0,1]; when \<open>1 - thr > 1e-5\<close> it is 0 exactly when
  \<open>raw = thr\<close>; and it is 1 when \<open>raw = 1\<close> and \<open>thr < 1\<close>.
\<close>

theorem C1_registerCollision_gate:
  fixes st :: state and raw thr :: real
  assumes thr: "thr = clamp_num_or0 (hitThreshold st) 0 1"
  shows "(raw < 0.01 \<or> raw < thr \<longrightarrow> registerCollision st raw obs b oi = None) \<and>
   (\<not> raw < 0.01 \<and> \<not> raw < thr \<longrightarrow>
      (\<exists>h. registerCollision st raw obs b oi = Some h \<and>
           rawStrength h = raw \<and>
           strength h = (if 1 - thr \<le> 1 / 100000 then 1 else clamp ((raw - thr) / (1 - thr)) 0 1) \<and>
           0 \<le> strength h \<and> strength h \<le> 1 \<and>
           (1 / 100000 < 1 - thr \<longrightarrow> (strength h = 0 \<longleftrightarrow> raw = thr)) \<and>
           (raw = 1 \<and> thr < 1 \<longrightarrow> strength h = 1)))"
proof (intro conjI impI)
  assume "raw < 0.01 \<or> raw < thr"
  then show "registerCollision st raw obs b oi = None"
    using thr by (simp add: registerCollision_None_iff)
next
  assume acc: "\<not> raw < 0.01 \<and> \<not> raw < thr"
  define s where "s = (if 1 - thr \<le> 1 / 100000 then 1 else clamp ((raw - thr) / (1 - thr)) 0 1)"
  define h where "h = \<lparr>rawStrength = raw, strength = s,
                    impact = getImpactStrength st (Fin s),
                    hitObstacle = obs, obstacleIndex = oi, bladeIndex = b\<rparr>"
  have reg: "registerCollision st raw obs b oi = Some h"
    using acc thr by (simp add: registerCollision_def Let_def h_def s_def clamp_def)
  have rng: "0 \<le> s \<and> s \<le> 1"
    using clamp_bounds [of 0 1] by (simp add: s_def)
  have zero: "s = 0 \<longleftrightarrow> raw = thr" if "1 / 100000 < 1 - thr"
  proof -
    have pos: "0 < 1 - thr" using that by simp
    have nonneg: "0 \<le> (raw - thr) / (1 - thr)" using acc pos by simp
    then have "s = min ((raw - thr) / (1 - thr)) 1"
      using that by (simp add: s_def clamp_def max_def)
    with nonneg have "s = 0 \<longleftrightarrow> (raw - thr) / (1 - thr) = 0"
      by (auto simp: min_def)
    then show ?thesis using pos by simp
  qed
  have one: "s = 1" if "raw = 1 \<and> thr < 1"
    using that by (simp add: s_def clamp_def)
  show "\<exists>h. registerCollision st raw obs b oi = Some h \<and>
           rawStrength h = raw \<and>
           strength h = (if 1 - thr \<le> 1 / 100000 then 1 else clamp ((raw - thr) / (1 - thr)) 0 1) \<and>
           0 \<le> strength h \<and> strength h \<le> 1 \<and>
           (1 / 100000 < 1 - thr \<longrightarrow> (strength h = 0 \<longleftrightarrow> raw = thr)) \<and>
           (raw = 1 \<and> thr < 1 \<longrightarrow> strength h = 1)"
    using reg rng zero one by (intro exI [of _ h]) (simp add: h_def s_def)
qed

theorem C1_registerCollision_gate_witness:
  "(0.12::real) = clamp_num_or0 (hitThreshold initialState) 0 1 \<and>
   registerCollision initialState 0.05 someObstacle 0 0 = None \<and>
   map_option strength (registerCollision initialState 0.12 someObstacle 0 0) = Some 0 \<and>
   map_option strength (registerCollision initialState 0.56 someObstacle 0 0) = Some 0.5 \<and>
   map_option strength (registerCollision initialState 1 someObstacle 0 0) = Some 1"
  using C1_registerCollision_gate [where st = initialState and thr = "0.12" and raw = "0.05"
      and obs = someObstacle and b = 0 and oi = 0]
    C1_registerCollision_gate [where st = initialState and thr = "0.12" and raw = "0.12"
      and obs = someObstacle and b = 0 and oi = 0]
    C1_registerCollision_gate [where st = initialState and thr = "0.12" and raw = "1"
      and obs = someObstacle and b = 0 and oi = 0]
  by (simp add: initialState_def clamp_def registerCollision_def Let_def)

text \<open>
  Claim C1 as stated fails at the threshold 1: a raw strength of 1 equals the threshold, the
  hit is accepted, and its strength is 1 by the convention for \<open>1 - thr \<le> 1e-5\<close>, not 0.
\<close>

theorem C1_strength_at_threshold_one:
  "clamp_num_or0 (hitThreshold (initialState\<lparr>hitThreshold := Fin 1\<rparr>)) 0 1 = 1 \<and>
   map_option rawStrength (registerCollision (initialState\<lparr>hitThreshold := Fin 1\<rparr>) 1 someObstacle 0 0) = Some 1 \<and>
   map_option strength (registerCollision (initialState\<lparr>hitThreshold := Fin 1\<rparr>) 1 someObstacle 0 0) = Some 1"
  by (simp add: initialState_def clamp_def registerCollision_def)

lemma accept_antimono:
  assumes "t1 \<le> t2"
    and "registerCollision (st\<lparr>hitThreshold := Fin t2\<rparr>) raw obs b oi \<noteq> None"
  shows "registerCollision (st\<lparr>hitThreshold := Fin t1\<rparr>) raw obs b oi \<noteq> None"
proof -
  have "clamp t1 0 1 \<le> clamp t2 0 1" using assms(1) by (rule clamp_mono)
  then show ?thesis using assms(2) by (simp add: registerCollision_None_iff)
qed

text \<open>
  Claim C6: for thresholds \<open>t1 < t2\<close> in [0,1] and one sequence of raw strengths reaching
  the gate, the gate accepts at most as many hits under \<open>t2\<close> as under \<open>t1\<close>.
\<close>

theorem C6_monotonic_gating:
  assumes "t1 < t2" "0 \<le> t1" "t2 \<le> 1"
  shows "acceptedCount (st\<lparr>hitThreshold := Fin t2\<rparr>) obs b oi raws
       \<le> acceptedCount (st\<lparr>hitThreshold := Fin t1\<rparr>) obs b oi raws"
proof (induction raws)
  case Nil
  show ?case by (simp add: acceptedCount_def)
next
  case (Cons raw raws)
  have "registerCollision (st\<lparr>hitThreshold := Fin t2\<rparr>) raw obs b oi \<noteq> None \<Longrightarrow>
        registerCollision (st\<lparr>hitThreshold := Fin t1\<rparr>) raw obs b oi \<noteq> None"
    using assms(1) by (intro accept_antimono [of t1 t2]) simp_all
  with Cons show ?case
    by (auto simp: acceptedCount_def)
qed

theorem C6_monotonic_gating_witness:
  "(0.12::real) < 0.5 \<and> (0::real) \<le> 0.12 \<and> (0.5::real) \<le> 1 \<and>
   acceptedCount (initialState\<lparr>hitThreshold := Fin 0.5\<rparr>) someObstacle 0 0 [0.005, 0.2, 0.6, 1] = 2 \<and>
   acceptedCount (initialState\<lparr>hitThreshold := Fin 0.12\<rparr>) someObstacle 0 0 [0.005, 0.2, 0.6, 1] = 3 \<and>
   acceptedCount (initialState\<lparr>hitThreshold := Fin 0.5\<rparr>) someObstacle 0 0 [0.005, 0.2, 0.6, 1]
     \<le> acceptedCount (initialState\<lparr>hitThreshold := Fin 0.12\<rparr>) someObstacle 0 0 [0.005, 0.2, 0.6, 1]"
  using C6_monotonic_gating [where ?t1.0 = "0.12" and ?t2.0 = "0.5" and st = initialState
      and obs = someObstacle and b = 0 and oi = 0 and raws = "[0.005, 0.2, 0.6, 1]"]
  by (simp add: acceptedCount_def registerCollision_None_iff clamp_def)

section \<open>The simulation step\<close>

lemma fold_invariant:
  assumes "\<And>x w. x \<in> set xs \<Longrightarrow> P w \<Longrightarrow> P (f x w)" and "P w"
  shows "P (fold f xs w)"
  using assms by (induction xs arbitrary: w) simp_all

lemma pairStep_frame:
  "obstacles (fst (pairStep st r a wb b oi w)) = obstacles (fst w) \<and>
   simTime (fst (pairStep st r a wb b oi w)) = simTime (fst w) \<and>
   wobblePhasePerBlade (fst (pairStep st r a wb b oi w)) = wobblePhasePerBlade (fst w)"
  by (simp add: pairStep_def Let_def)

lemma bladePass_frame:
  "obstacles (fst (bladePass st ba r rand b w)) = obstacles (fst w) \<and>
   simTime (fst (bladePass st ba r rand b w)) = simTime (fst w) \<and>
   wobblePhasePerBlade (fst (bladePass st ba r rand b w)) = wobblePhasePerBlade (fst w)"
  unfolding bladePass_def Let_def
  by (rule fold_invariant) (simp_all add: pairStep_frame)

lemma blades_frame:
  "obstacles (fst (fold (\<lambda>b. bladePass st ba r (rands b) b) bs w)) = obstacles (fst w) \<and>
   simTime (fst (fold (\<lambda>b. bladePass st ba r (rands b) b) bs w)) = simTime (fst w) \<and>
   wobblePhasePerBlade (fst (fold (\<lambda>b. bladePass st ba r (rands b) b) bs w)) = wobblePhasePerBlade (fst w)"
  by (rule fold_invariant) (simp_all add: bladePass_frame)

lemma substep_frame:
  "obstacles (fst (substep st h rands w)) = obstacles (fst w) \<and>
   simTime (fst (substep st h rands w)) = simTime (fst w) + h \<and>
   wobblePhasePerBlade (fst (substep st h rands w)) = wobblePhasePerBlade (fst w)"
  unfolding substep_def Let_def using blades_frame by simp

lemma ensure_frame:
  "obstacles (ensureWobblePhaseSize st (ensureHitStateSize st sm)) = obstacles sm \<and>
   simTime (ensureWobblePhaseSize st (ensureHitStateSize st sm)) = simTime sm"
  by (simp add: ensureWobblePhaseSize_def ensureHitStateSize_def resetWobblePhases_def
      resetHitStates_def)

lemma upt_4: "[0..<4] = [0, 1, 2, 3]"
  by (simp add: upt_rec)

lemma stepSimulation_unfold:
  assumes "0 < dt" "0 < omegaOf st"
  shows "stepSimulation st rnd dt w =
     substep st (dt / 4) (rnd 3) (substep st (dt / 4) (rnd 2)
       (substep st (dt / 4) (rnd 1) (substep st (dt / 4) (rnd 0)
         (ensureWobblePhaseSize st (ensureHitStateSize st (fst w)), snd w))))"
  using assms by (simp add: stepSimulation_def substeps_def upt_4 Let_def)

lemma bladePass_no_obstacles:
  "obstacles (fst w) = [] \<Longrightarrow> bladePass st ba r rand b w = w"
  by (simp add: bladePass_def Let_def)

lemma blades_no_obstacles:
  "obstacles (fst w) = [] \<Longrightarrow> fold (\<lambda>b. bladePass st ba r (rands b) b) bs w = w"
  by (induction bs) (simp_all add: bladePass_no_obstacles)

lemma substep_log_no_obstacles:
  "obstacles (fst w) = [] \<Longrightarrow> snd (substep st h rands w) = snd w"
  by (simp add: substep_def Let_def blades_no_obstacles)

lemma substep_log_no_blades:
  "bladeCount st = 0 \<Longrightarrow> snd (substep st h rands w) = snd w"
  by (simp add: substep_def Let_def)

lemma omegaOf_pos_iff: "0 < omegaOf st \<longleftrightarrow> 0 < rpm st"
  by (simp add: omegaOf_def TWO_PI_def zero_less_mult_iff)

text \<open>
  Claim C9: when \<open>dt \<le> 0\<close> or \<open>\<omega> = (rpm / 60) * 2\<pi> \<le> 0\<close>, \<^verbatim>\<open>stepSimulation\<close> returns with
  the simulation variables and the log of collision calls as they were; and with no blade or
  no obstacle a step adds no collision call to the log. The step has no failing branch.
\<close>

theorem C9_degenerate_steps:
  "(dt \<le> 0 \<or> omegaOf st \<le> 0 \<longrightarrow> stepSimulation st rnd dt w = w) \<and>
   (rpm st \<le> 0 \<longrightarrow> stepSimulation st rnd dt w = w) \<and>
   (bladeCount st = 0 \<or> obstacles (fst w) = [] \<longrightarrow> snd (stepSimulation st rnd dt w) = snd w)"
proof (intro conjI impI)
  assume "dt \<le> 0 \<or> omegaOf st \<le> 0"
  then show "stepSimulation st rnd dt w = w"
    by (auto simp: stepSimulation_def)
next
  assume "rpm st \<le> 0"
  then have "omegaOf st \<le> 0" using omegaOf_pos_iff [of st] by simp
  then show "stepSimulation st rnd dt w = w"
    by (simp add: stepSimulation_def)
next
  assume deg: "bladeCount st = 0 \<or> obstacles (fst w) = []"
  show "snd (stepSimulation st rnd dt w) = snd w"
  proof (cases "0 < dt \<and> 0 < omegaOf st")
    case False
    then show ?thesis by (auto simp: stepSimulation_def)
  next
    case True
    define w0 where "w0 = (ensureWobblePhaseSize st (ensureHitStateSize st (fst w)), snd w)"
    have keep: "snd (substep st h rands v) = snd v"
      if "bladeCount st = 0 \<or> obstacles (fst v) = []" for h rands v
      using that substep_log_no_blades substep_log_no_obstacles by blast
    have obs: "obstacles (fst (substep st h rands v)) = obstacles (fst v)" for h rands v
      by (simp add: substep_frame)
    have d0: "bladeCount st = 0 \<or> obstacles (fst w0) = []"
      using deg by (simp add: w0_def ensure_frame)
    have "snd (substep st (dt / 4) (rnd 3) (substep st (dt / 4) (rnd 2)
       (substep st (dt / 4) (rnd 1) (substep st (dt / 4) (rnd 0) w0)))) = snd w0"
      using d0 by (simp add: keep obs)
    then show ?thesis
      using True by (simp add: stepSimulation_unfold w0_def)
  qed
qed

theorem C9_degenerate_steps_witness:
  "stepSimulation initialState (\<lambda>s b. 0) 0 (initialSim, []) = (initialSim, []) \<and>
   stepSimulation (initialState\<lparr>rpm := 0\<rparr>) (\<lambda>s b. 0) 1 (initialSim, []) = (initialSim, []) \<and>
   snd (stepSimulation initialState (\<lambda>s b. 0) 1 (initialSim, [])) = []"
  using C9_degenerate_steps [where st = initialState and dt = 0 and w = "(initialSim, [])"
      and rnd = "\<lambda>s b. 0"]
    C9_degenerate_steps [where st = "initialState\<lparr>rpm := 0\<rparr>" and dt = 1
      and w = "(initialSim, [])" and rnd = "\<lambda>s b. 0"]
    C9_degenerate_steps [where st = initialState and dt = 1 and w = "(initialSim, [])"
      and rnd = "\<lambda>s b. 0"]
  by (simp add: initialSim_def initialState_def)

lemma js_rem_nonneg:
  assumes "0 \<le> x" "0 < m"
  shows "js_rem x m = x - m * of_int \<lfloor>x / m\<rfloor>"
proof -
  have "0 \<le> x / m" using assms by simp
  then have "\<not> x / m < 0" by simp
  then show ?thesis unfolding js_rem_def by simp
qed

lemma bladeAngle_floor_mod:
  assumes "0 \<le> t" "0 \<le> omegaOf st"
  shows "bladeAngle st (omegaOf st * t) b =
           (omegaOf st * t + 2 * pi * real b / real (bladeCount st))
           - 2 * pi * of_int \<lfloor>(omegaOf st * t + 2 * pi * real b / real (bladeCount st)) / (2 * pi)\<rfloor>"
proof -
  have "0 \<le> omegaOf st * t + (TWO_PI * real b) / real (bladeCount st)"
    using assms TWO_PI_pos by simp
  then show ?thesis
    unfolding bladeAngle_def using js_rem_nonneg [OF _ TWO_PI_pos]
    by (simp add: TWO_PI_def mult.commute)
qed

section \<open>Hit-zone state\<close>

lemma length_set2: "length (set2 xs b oi v) = length xs"
  by (simp add: set2_def)

lemma rows_set2:
  "list_all (\<lambda>row. length row = n) xs \<Longrightarrow> list_all (\<lambda>row. length row = n) (set2 xs b oi v)"
proof (cases "b < length xs")
  case True
  assume "list_all (\<lambda>row. length row = n) xs"
  with True show ?thesis
    by (auto simp: set2_def list_all_length nth_list_update)
next
  case False
  assume "list_all (\<lambda>row. length row = n) xs"
  with False show ?thesis by (simp add: set2_def list_update_beyond)
qed

lemma get2_set2:
  "get2 (set2 xs b oi v) b' oi' d =
     (if b' = b \<and> oi' = oi \<and> b < length xs \<and> oi < length (xs ! b) then v else get2 xs b' oi' d)"
proof (cases "b < length xs")
  case True
  then show ?thesis
    by (cases "b' = b"; cases "oi' = oi") (auto simp: get2_def set2_def nth_list_update)
next
  case False
  then show ?thesis by (simp add: get2_def set2_def list_update_beyond)
qed

lemma sized_row:
  assumes "sized st sm" "b < bladeCount st"
  shows "b < length (lastHitRev sm) \<and> length (lastHitRev sm ! b) = length (obstacles sm) \<and>
         b < length (wasInHitZone sm) \<and> length (wasInHitZone sm ! b) = length (obstacles sm)"
  using assms by (simp add: sized_def list_all_length)

lemma sized_pairStep: "sized st (fst w) \<Longrightarrow> sized st (fst (pairStep st r a wb b oi w))"
  by (simp add: pairStep_def Let_def sized_def length_set2 rows_set2)

lemma sized_resetHitStates: "sized st (resetHitStates st sm)"
  by (simp add: sized_def resetHitStates_def list_all_length)

lemma sized_fixed: "sized st sm \<Longrightarrow> ensureHitStateSize st sm = sm"
  by (auto simp: sized_def ensureHitStateSize_def list_all_length list_ex_iff)

lemma sized_ensureHitStateSize: "sized st (ensureHitStateSize st sm)"
proof (cases "sized st sm")
  case True
  then show ?thesis by (simp add: sized_fixed)
next
  case False
  then have "ensureHitStateSize st sm = resetHitStates st sm"
    by (auto simp: sized_def ensureHitStateSize_def list_all_length list_ex_iff)
  then show ?thesis by (simp add: sized_resetHitStates)
qed

section \<open>Edge trigger and revolution slots\<close>

lemma pairStep_log:
  "snd (pairStep st r a wb b oi (sm, lg)) =
     (if \<not> get2 (wasInHitZone sm) b oi False \<and>
         0 < rawStrengthAt (a + wb) (angle (obstacles sm ! oi)) \<and>
         rev_gt r (get2 (lastHitRev sm) b oi None)
      then lg @ [\<lparr>callRaw = rawStrengthAt (a + wb) (angle (obstacles sm ! oi)),
                   callBlade = b, callObstacle = oi, callTime = simTime sm,
                   callResult = registerCollision st
                     (rawStrengthAt (a + wb) (angle (obstacles sm ! oi))) (obstacles sm ! oi) b oi\<rparr>]
      else lg)"
  by (simp add: pairStep_def Let_def)

lemma pairStep_lastHitRev:
  "lastHitRev (fst (pairStep st r a wb b oi (sm, lg))) =
     (if \<not> get2 (wasInHitZone sm) b oi False \<and>
         0 < rawStrengthAt (a + wb) (angle (obstacles sm ! oi)) \<and>
         rev_gt r (get2 (lastHitRev sm) b oi None)
      then set2 (lastHitRev sm) b oi (Some r)
      else lastHitRev sm)"
  by (simp add: pairStep_def Let_def)

lemma pairStep_wasInHitZone:
  "wasInHitZone (fst (pairStep st r a wb b oi (sm, lg))) =
     set2 (wasInHitZone sm) b oi (0 < rawStrengthAt (a + wb) (angle (obstacles sm ! oi)))"
  by (simp add: pairStep_def Let_def)

lemma recorded_pairStep:
  assumes inv: "recorded st w"
    and b: "b < bladeCount st" and oi: "oi < length (obstacles (fst w))"
    and r: "r = revIndexAt st (simTime (fst w))"
  shows "recorded st (pairStep st r a wb b oi w)"
proof -
  obtain sm lg where w: "w = (sm, lg)" by (cases w)
  have sz: "sized st sm" using inv by (simp add: recorded_def w)
  have dist: "distinct (map (callKey st) lg)" using inv by (simp add: recorded_def w)
  have old: "\<And>c. c \<in> set lg \<Longrightarrow>
      (case get2 (lastHitRev sm) (callBlade c) (callObstacle c) None of
         None \<Rightarrow> False | Some x \<Rightarrow> revIndexAt st (callTime c) \<le> x)"
    using inv by (simp add: recorded_def w list_all_iff)
  have rng: "b < length (lastHitRev sm) \<and> oi < length (lastHitRev sm ! b)"
    using sized_row [OF sz b] oi by (simp add: w)
  have sz': "sized st (fst (pairStep st r a wb b oi w))"
    using sz by (intro sized_pairStep) (simp add: w)
  let ?fire = "\<not> get2 (wasInHitZone sm) b oi False \<and>
         0 < rawStrengthAt (a + wb) (angle (obstacles sm ! oi)) \<and>
         rev_gt r (get2 (lastHitRev sm) b oi None)"
  show ?thesis
  proof (cases ?fire)
    case False
    then have "snd (pairStep st r a wb b oi w) = lg"
      and "lastHitRev (fst (pairStep st r a wb b oi w)) = lastHitRev sm"
      by (auto simp: w pairStep_log pairStep_lastHitRev)
    then show ?thesis
      using sz' dist old by (simp add: recorded_def list_all_iff)
  next
    case True
    define c0 where "c0 = \<lparr>callRaw = rawStrengthAt (a + wb) (angle (obstacles sm ! oi)),
                   callBlade = b, callObstacle = oi, callTime = simTime sm,
                   callResult = registerCollision st
                     (rawStrengthAt (a + wb) (angle (obstacles sm ! oi))) (obstacles sm ! oi) b oi\<rparr>"
    have lg': "snd (pairStep st r a wb b oi w) = lg @ [c0]"
      using True by (simp add: w pairStep_log c0_def)
    have lhr': "lastHitRev (fst (pairStep st r a wb b oi w)) = set2 (lastHitRev sm) b oi (Some r)"
      using True by (simp add: w pairStep_lastHitRev)
    have key0: "callKey st c0 = (b, oi, r)"
      using r by (simp add: callKey_def c0_def w)
    have gt: "rev_gt r (get2 (lastHitRev sm) b oi None)" using True by simp
    have fresh: "callKey st c \<noteq> (b, oi, r)" if "c \<in> set lg" for c
    proof
      assume k: "callKey st c = (b, oi, r)"
      then have cb: "callBlade c = b" and co: "callObstacle c = oi"
        and cr: "revIndexAt st (callTime c) = r"
        by (simp_all add: callKey_def)
      from old [OF that] obtain x where x: "get2 (lastHitRev sm) b oi None = Some x"
        and le: "revIndexAt st (callTime c) \<le> x"
        by (auto simp: cb co split: option.splits)
      from gt x have "x < r" by simp
      with le cr show False by simp
    qed
    have new: "(case get2 (set2 (lastHitRev sm) b oi (Some r)) (callBlade c) (callObstacle c) None of
         None \<Rightarrow> False | Some x \<Rightarrow> revIndexAt st (callTime c) \<le> x)"
      if "c \<in> set lg" for c
    proof (cases "callBlade c = b \<and> callObstacle c = oi")
      case False
      then have "get2 (set2 (lastHitRev sm) b oi (Some r)) (callBlade c) (callObstacle c) None
        = get2 (lastHitRev sm) (callBlade c) (callObstacle c) None"
        by (auto simp: get2_set2)
      then show ?thesis using old [OF that] by simp
    next
      case same: True
      from old [OF that] obtain x where x: "get2 (lastHitRev sm) b oi None = Some x"
        and le: "revIndexAt st (callTime c) \<le> x"
        by (auto simp: same split: option.splits)
      from gt x have "x < r" by simp
      with le show ?thesis using same rng by (simp add: get2_set2)
    qed
    have new0: "(case get2 (set2 (lastHitRev sm) b oi (Some r)) (callBlade c0) (callObstacle c0) None of
         None \<Rightarrow> False | Some x \<Rightarrow> revIndexAt st (callTime c0) \<le> x)"
      using rng r by (simp add: get2_set2 c0_def w)
    have "callKey st c0 \<notin> callKey st ` set lg"
    proof
      assume "callKey st c0 \<in> callKey st ` set lg"
      then obtain c where "c \<in> set lg" and "callKey st c = callKey st c0"
        by (metis imageE)
      then show False using fresh key0 by metis
    qed
    then have "distinct (map (callKey st) (lg @ [c0]))"
      using dist by simp
    then show ?thesis
      using sz' lg' lhr' new new0 by (simp add: recorded_def list_all_iff)
  qed
qed

lemma recorded_bladePass:
  assumes inv: "recorded st w" and b: "b < bladeCount st"
    and r: "r = revIndexAt st (simTime (fst w))"
  shows "recorded st (bladePass st ba r rand b w)"
proof -
  let ?P = "\<lambda>v. recorded st v \<and> obstacles (fst v) = obstacles (fst w) \<and>
                 simTime (fst v) = simTime (fst w)"
  have "?P (fold (pairStep st r (bladeAngle st ba b)
             (wobbleAt st (simTime (fst w))
               (if b < length (wobblePhasePerBlade (fst w)) then wobblePhasePerBlade (fst w) ! b else 0)
               rand) b)
           [0..<length (obstacles (fst w))] w)"
  proof (rule fold_invariant)
    show "?P w" using inv by simp
  next
    fix oi v
    assume "oi \<in> set [0..<length (obstacles (fst w))]" and "?P v"
    then show "?P (pairStep st r (bladeAngle st ba b)
             (wobbleAt st (simTime (fst w))
               (if b < length (wobblePhasePerBlade (fst w)) then wobblePhasePerBlade (fst w) ! b else 0)
               rand) b oi v)"
      using b r by (simp add: recorded_pairStep pairStep_frame)
  qed
  then show ?thesis by (simp add: bladePass_def Let_def)
qed

lemma recorded_blades:
  assumes inv: "recorded st w" and bs: "\<forall>b\<in>set bs. b < bladeCount st"
    and r: "r = revIndexAt st (simTime (fst w))"
  shows "recorded st (fold (\<lambda>b. bladePass st ba r (rands b) b) bs w)"
proof -
  let ?P = "\<lambda>v. recorded st v \<and> simTime (fst v) = simTime (fst w)"
  have "?P (fold (\<lambda>b. bladePass st ba r (rands b) b) bs w)"
  proof (rule fold_invariant)
    show "?P w" using inv by simp
  next
    fix b v
    assume "b \<in> set bs" and "?P v"
    then show "?P (bladePass st ba r (rands b) b v)"
      using bs r by (simp add: recorded_bladePass bladePass_frame)
  qed
  then show ?thesis by simp
qed

lemma recorded_simTime:
  "recorded st w \<Longrightarrow> recorded st ((fst w)\<lparr>simTime := t\<rparr>, snd w)"
  by (simp add: recorded_def sized_def)

lemma recorded_substep:
  assumes "recorded st w"
  shows "recorded st (substep st h rands w)"
  unfolding substep_def Let_def
  by (rule recorded_blades) (simp_all add: recorded_simTime assms revIndexAt_def)

lemma recorded_ensure:
  assumes "snd w = [] \<or> recorded st w"
  shows "recorded st (ensureWobblePhaseSize st (ensureHitStateSize st (fst w)), snd w)"
proof -
  have wob: "recorded st (ensureWobblePhaseSize st sm, lg)" if "recorded st (sm, lg)" for sm lg
    using that by (simp add: recorded_def sized_def ensureWobblePhaseSize_def resetWobblePhases_def)
  from assms show ?thesis
  proof
    assume e: "snd w = []"
    have "recorded st (ensureHitStateSize st (fst w), [])"
      by (simp add: recorded_def sized_ensureHitStateSize)
    then show ?thesis using e by (simp add: wob)
  next
    assume rec: "recorded st w"
    then have "ensureHitStateSize st (fst w) = fst w"
      by (simp add: recorded_def sized_fixed)
    then show ?thesis using rec by (simp add: wob)
  qed
qed

lemma recorded_stepSimulation:
  assumes "snd w = [] \<or> recorded st w"
  shows "snd (stepSimulation st rnd dt w) = [] \<or> recorded st (stepSimulation st rnd dt w)"
proof (cases "0 < dt \<and> 0 < omegaOf st")
  case False
  then have "stepSimulation st rnd dt w = w" by (auto simp: stepSimulation_def)
  then show ?thesis using assms by simp
next
  case True
  then show ?thesis
    by (simp add: stepSimulation_unfold recorded_substep recorded_ensure [OF assms])
qed

lemma recorded_runFrames:
  "snd w = [] \<or> recorded st w \<Longrightarrow>
   snd (runFrames st fs w) = [] \<or> recorded st (runFrames st fs w)"
  by (induction fs arbitrary: w) (simp_all add: recorded_stepSimulation)

lemma inZone_iff:
  "0 < rawStrengthAt x y \<longleftrightarrow> \<bar>smallestAngleDiff x y\<bar> < HIT_ANGLE_TOL"
  by (auto simp: rawStrengthAt_def Let_def clamp_def HIT_ANGLE_TOL_def min_def max_def)

text \<open>
  Claim C2: for a pair of blade \<open>b\<close> and obstacle \<open>oi\<close> the detector calls
  \<^verbatim>\<open>registerCollision\<close> exactly when the pair was outside the zone before, is inside now
  (within 0.25 rad) and the revolution index \<open>\<lfloor>\<omega> * simTime / 2\<pi>\<rfloor>\<close> is greater than the one
  recorded for the pair. Hence, over any number of frames, no two calls of the log are for
  the same pair in the same revolution.
\<close>

theorem C2_edge_and_revolution:
  "snd (pairStep st r a wb b oi (sm, lg)) =
     (if \<not> get2 (wasInHitZone sm) b oi False \<and>
         0 < rawStrengthAt (a + wb) (angle (obstacles sm ! oi)) \<and>
         rev_gt r (get2 (lastHitRev sm) b oi None)
      then lg @ [\<lparr>callRaw = rawStrengthAt (a + wb) (angle (obstacles sm ! oi)),
                   callBlade = b, callObstacle = oi, callTime = simTime sm,
                   callResult = registerCollision st
                     (rawStrengthAt (a + wb) (angle (obstacles sm ! oi))) (obstacles sm ! oi) b oi\<rparr>]
      else lg) \<and>
   (0 < rawStrengthAt x y \<longleftrightarrow> \<bar>smallestAngleDiff x y\<bar> < 0.25) \<and>
   revIndexAt st t = \<lfloor>((rpm st / 60) * (2 * pi) * t) / (2 * pi)\<rfloor> \<and>
   distinct (map (callKey st) (snd (runFrames st frames (sm, []))))"
proof -
  have "snd (runFrames st frames (sm, [])) = [] \<or> recorded st (runFrames st frames (sm, []))"
    by (rule recorded_runFrames) simp
  then have "distinct (map (callKey st) (snd (runFrames st frames (sm, []))))"
    by (auto simp: recorded_def)
  moreover have "revIndexAt st t = \<lfloor>((rpm st / 60) * (2 * pi) * t) / (2 * pi)\<rfloor>"
    by (simp add: revIndexAt_def omegaOf_def TWO_PI_def mult.commute)
  ultimately show ?thesis
    using inZone_iff [of x y] by (simp add: pairStep_log HIT_ANGLE_TOL_def)
qed

section \<open>A sweep through a zone\<close>

lemma js_rem_small:
  assumes "0 \<le> x" "x < m"
  shows "js_rem x m = x"
proof -
  have m: "0 < m" using assms by simp
  have "0 \<le> x / m \<and> x / m < 1" using assms m by simp
  then have "\<lfloor>x / m\<rfloor> = 0" by (simp add: floor_eq_iff)
  then show ?thesis using js_rem_nonneg [OF assms(1) m] by simp
qed

lemma sweep_angle:
  assumes "0 \<le> t" "t \<le> 3 / 100"
  shows "bladeAngle sweepState (omegaOf sweepState * t) 0 = 2 * pi * t"
    and "0 < rawStrengthAt (bladeAngle sweepState (omegaOf sweepState * t) 0 + 0) 0"
    and "revIndexAt sweepState t = 0"
proof -
  have om: "omegaOf sweepState = 2 * pi"
    by (simp add: omegaOf_def sweepState_def TWO_PI_def)
  have "2 * pi * t < 2 * pi * 1" using assms by (intro mult_strict_left_mono) simp_all
  then have lt: "2 * pi * t < TWO_PI" by (simp add: TWO_PI_def)
  have ge: "0 \<le> 2 * pi * t" using assms by simp
  show a: "bladeAngle sweepState (omegaOf sweepState * t) 0 = 2 * pi * t"
    using js_rem_small [OF ge lt] by (simp add: bladeAngle_def om)
  have "2 * pi * t \<le> 2 * 4 * t"
    using assms pi_less_4 by (intro mult_right_mono mult_left_mono) simp_all
  then have small: "2 * pi * t \<le> 24 / 100" using assms by simp
  then have "rawStrengthAt (2 * pi * t) 0 = 1 - (2 * pi * t - 0) * 4"
    using ge by (intro rawStrengthAt_near) simp_all
  then show "0 < rawStrengthAt (bladeAngle sweepState (omegaOf sweepState * t) 0 + 0) 0"
    using small by (simp add: a)
  have "0 \<le> t \<and> t < 1" using assms by simp
  then have "\<lfloor>t\<rfloor> = 0" by (simp add: floor_eq_iff)
  then show "revIndexAt sweepState t = 0"
    by (simp add: revIndexAt_def om TWO_PI_def)
qed

lemma sweep_substep:
  assumes obs: "obstacles sm = [someObstacle]" and ph: "wobblePhasePerBlade sm = [0]"
    and t: "0 \<le> simTime sm + h" "simTime sm + h \<le> 3 / 100"
  shows "substep sweepState h rands (sm, lg) =
           pairStep sweepState 0 (bladeAngle sweepState (omegaOf sweepState * (simTime sm + h)) 0) 0 0 0
             (sm\<lparr>simTime := simTime sm + h\<rparr>, lg)"
proof -
  have "\<lfloor>omegaOf sweepState * (simTime sm + h) / TWO_PI\<rfloor> = 0"
    using sweep_angle(3) [OF t] by (simp add: revIndexAt_def)
  moreover have "wobbleAt sweepState x p u = 0" for x p u
    by (simp add: wobbleAt_def sweepState_def)
  moreover have "bladeCount sweepState = 1" by (simp add: sweepState_def)
  ultimately show ?thesis
    by (simp add: substep_def bladePass_def Let_def obs)
qed

lemma sweep_enter:
  assumes "obstacles sm = [someObstacle]" "wobblePhasePerBlade sm = [0]"
    and "0 \<le> simTime sm + h" "simTime sm + h \<le> 3 / 100"
    and "wasInHitZone sm = [[False]]" "lastHitRev sm = [[None]]"
  shows "fst (substep sweepState h rands (sm, lg)) =
           sm\<lparr>simTime := simTime sm + h, lastHitRev := [[Some 0]], wasInHitZone := [[True]]\<rparr>"
    and "map (callKey sweepState) (snd (substep sweepState h rands (sm, lg))) =
           map (callKey sweepState) lg @ [(0, 0, 0)]"
  using assms sweep_angle(2,3) [OF assms(3,4)]
  by (simp_all add: sweep_substep pairStep_def Let_def get2_def set2_def someObstacle_def
      callKey_def)

lemma sweep_stay:
  assumes "obstacles sm = [someObstacle]" "wobblePhasePerBlade sm = [0]"
    and "0 \<le> simTime sm + h" "simTime sm + h \<le> 3 / 100"
    and "wasInHitZone sm = [[True]]"
  shows "substep sweepState h rands (sm, lg) = (sm\<lparr>simTime := simTime sm + h\<rparr>, lg)"
  using assms sweep_angle(2) [OF assms(3,4)]
  by (simp add: sweep_substep pairStep_def Let_def get2_def set2_def someObstacle_def)

text \<open>
  A frame of 0.03 s from time 0: the blade is inside the zone of the obstacle at angle 0 at
  each of the four sub-steps, all in revolution 0, and the log holds one call for the pair.
\<close>

lemma sweep_example:
  "map (callKey sweepState)
     (snd (stepSimulation sweepState (\<lambda>s b. 0) (3 / 100) (oneObstacleSim, []))) = [(0, 0, 0)] \<and>
   wasInHitZone (fst (stepSimulation sweepState (\<lambda>s b. 0) (3 / 100) (oneObstacleSim, []))) = [[True]]"
proof -
  let ?h = "3 / 100 / 4 :: real"
  define w0 where "w0 = (oneObstacleSim, [] :: call list)"
  define w1 where "w1 = substep sweepState ?h (\<lambda>b. 0) w0"
  define w2 where "w2 = substep sweepState ?h (\<lambda>b. 0) (fst w1, snd w1)"
  define w3 where "w3 = substep sweepState ?h (\<lambda>b. 0) w2"
  define w4 where "w4 = substep sweepState ?h (\<lambda>b. 0) w3"
  have ens: "ensureWobblePhaseSize sweepState (ensureHitStateSize sweepState oneObstacleSim)
      = oneObstacleSim"
    by (simp add: ensureWobblePhaseSize_def ensureHitStateSize_def oneObstacleSim_def sweepState_def)
  have om: "0 < omegaOf sweepState"
    by (simp add: omegaOf_def sweepState_def TWO_PI_def)
  have step: "stepSimulation sweepState (\<lambda>s b. 0) (3 / 100) (oneObstacleSim, []) = w4"
    using stepSimulation_unfold [of "3 / 100" sweepState "\<lambda>s b. 0" "(oneObstacleSim, [])"] om
    by (simp add: ens w4_def w3_def w2_def w1_def w0_def)
  have f1: "fst w1 = oneObstacleSim\<lparr>simTime := 3 / 400, lastHitRev := [[Some 0]],
      wasInHitZone := [[True]]\<rparr>"
    and l1: "map (callKey sweepState) (snd w1) = [(0, 0, 0)]"
    unfolding w1_def w0_def
    using sweep_enter [of oneObstacleSim ?h "\<lambda>b. 0" "[]"]
    by (simp_all add: oneObstacleSim_def)
  have s2: "w2 = ((fst w1)\<lparr>simTime := 6 / 400\<rparr>, snd w1)"
    unfolding w2_def using sweep_stay [of "fst w1" ?h "\<lambda>b. 0" "snd w1"]
    by (simp add: f1 oneObstacleSim_def)
  have s3: "w3 = ((fst w1)\<lparr>simTime := 9 / 400\<rparr>, snd w1)"
    unfolding w3_def s2 using sweep_stay [of "(fst w1)\<lparr>simTime := 6 / 400\<rparr>" ?h "\<lambda>b. 0" "snd w1"]
    by (simp add: f1 oneObstacleSim_def)
  have s4: "w4 = ((fst w1)\<lparr>simTime := 12 / 400\<rparr>, snd w1)"
    unfolding w4_def s3 using sweep_stay [of "(fst w1)\<lparr>simTime := 9 / 400\<rparr>" ?h "\<lambda>b. 0" "snd w1"]
    by (simp add: f1 oneObstacleSim_def)
  show ?thesis unfolding step s4 by (simp add: l1 f1)
qed

theorem C2_edge_and_revolution_witness:
  "map (callKey sweepState)
     (snd (runFrames sweepState [(\<lambda>s b. 0, 3 / 100)] (oneObstacleSim, []))) = [(0, 0, 0)] \<and>
   wasInHitZone (fst (runFrames sweepState [(\<lambda>s b. 0, 3 / 100)] (oneObstacleSim, []))) = [[True]] \<and>
   distinct (map (callKey sweepState)
     (snd (runFrames sweepState [(\<lambda>s b. 0, 3 / 100)] (oneObstacleSim, []))))"
  using sweep_example
    C2_edge_and_revolution [where st = sweepState and sm = oneObstacleSim
      and frames = "[(\<lambda>s b. 0, 3 / 100)]"]
  by simp

section \<open>The revolution slot of a discarded hit\<close>

text \<open>
  Claim C10: on a zone entry (the pair was outside, is inside) whose revolution index exceeds
  the one recorded for the pair, the step records the revolution index for the pair, whatever
  \<^verbatim>\<open>registerCollision\<close> returns for the call, accepted or discarded. While that index
  stays recorded, a step of the pair at a revolution index that is not greater makes no call;
  and a step of another pair leaves the recorded index as it is.
\<close>

theorem C10_slot_consumed:
  assumes "b < length (lastHitRev sm)" "oi < length (lastHitRev sm ! b)"
    and "\<not> get2 (wasInHitZone sm) b oi False"
    and "0 < rawStrengthAt (a + wb) (angle (obstacles sm ! oi))"
    and "rev_gt r (get2 (lastHitRev sm) b oi None)"
  shows "get2 (lastHitRev (fst (pairStep st r a wb b oi (sm, lg)))) b oi None = Some r \<and>
    map callResult (snd (pairStep st r a wb b oi (sm, lg))) =
      map callResult lg @
        [registerCollision st (rawStrengthAt (a + wb) (angle (obstacles sm ! oi)))
           (obstacles sm ! oi) b oi] \<and>
    (\<forall>st' r' a' wb' (sm' :: sim) lg'.
        get2 (lastHitRev sm') b oi None = Some r \<and> r' \<le> r \<longrightarrow>
          snd (pairStep st' r' a' wb' b oi (sm', lg')) = lg' \<and>
          get2 (lastHitRev (fst (pairStep st' r' a' wb' b oi (sm', lg')))) b oi None = Some r) \<and>
    (\<forall>st' r' a' wb' b' oi' (sm' :: sim) lg'.
        (b', oi') \<noteq> (b, oi) \<longrightarrow>
          get2 (lastHitRev (fst (pairStep st' r' a' wb' b' oi' (sm', lg')))) b oi None =
          get2 (lastHitRev sm') b oi None)"
proof (intro conjI allI impI)
  show "get2 (lastHitRev (fst (pairStep st r a wb b oi (sm, lg)))) b oi None = Some r"
    using assms by (simp add: pairStep_lastHitRev get2_set2)
next
  show "map callResult (snd (pairStep st r a wb b oi (sm, lg))) =
      map callResult lg @
        [registerCollision st (rawStrengthAt (a + wb) (angle (obstacles sm ! oi)))
           (obstacles sm ! oi) b oi]"
    using assms by (simp add: pairStep_log)
next
  fix st' r' a' wb' lg' and sm' :: sim
  assume h: "get2 (lastHitRev sm') b oi None = Some r \<and> r' \<le> r"
  then have no: "\<not> rev_gt r' (get2 (lastHitRev sm') b oi None)" by simp
  then show "snd (pairStep st' r' a' wb' b oi (sm', lg')) = lg'"
    by (simp add: pairStep_log)
  show "get2 (lastHitRev (fst (pairStep st' r' a' wb' b oi (sm', lg')))) b oi None = Some r"
    using no h by (simp add: pairStep_lastHitRev)
next
  fix st' r' a' wb' b' oi' lg' and sm' :: sim
  assume "(b', oi') \<noteq> (b, oi)"
  then show "get2 (lastHitRev (fst (pairStep st' r' a' wb' b' oi' (sm', lg')))) b oi None =
          get2 (lastHitRev sm') b oi None"
    by (auto simp: pairStep_lastHitRev get2_set2)
qed

theorem C10_slot_consumed_witness:
  "registerCollision (initialState\<lparr>hitThreshold := Fin 0.5\<rparr>) (rawStrengthAt (0.2 + 0) 0)
      someObstacle 0 0 = None \<and>
   get2 (lastHitRev (fst (pairStep (initialState\<lparr>hitThreshold := Fin 0.5\<rparr>) 1 0.2 0 0 0
      (oneObstacleSim, [])))) 0 0 None = Some 1 \<and>
   map callResult (snd (pairStep (initialState\<lparr>hitThreshold := Fin 0.5\<rparr>) 1 0.2 0 0 0
      (oneObstacleSim, []))) = [None] \<and>
   snd (pairStep initialState 1 0.1 0 0 0
      ((fst (pairStep (initialState\<lparr>hitThreshold := Fin 0.5\<rparr>) 1 0.2 0 0 0
         (oneObstacleSim, [])))\<lparr>wasInHitZone := [[False]]\<rparr>, [])) = []"
proof -
  let ?st = "initialState\<lparr>hitThreshold := Fin 0.5\<rparr>"
  have raw: "rawStrengthAt (1 / 5) 0 = 1 / 5"
    using rawStrengthAt_near [of "1 / 5" 0] by simp
  have gated: "registerCollision ?st (rawStrengthAt (0.2 + 0) 0) someObstacle 0 0 = None"
    by (simp add: raw registerCollision_None_iff initialState_def clamp_def)
  have p1: "0 < length (lastHitRev oneObstacleSim)"
    and p2: "0 < length (lastHitRev oneObstacleSim ! 0)"
    and p3: "\<not> get2 (wasInHitZone oneObstacleSim) 0 0 False"
    and p4: "0 < rawStrengthAt (0.2 + 0) (angle (obstacles oneObstacleSim ! 0))"
    and p5: "rev_gt 1 (get2 (lastHitRev oneObstacleSim) 0 0 None)"
    by (simp_all add: oneObstacleSim_def someObstacle_def raw get2_def)
  note C = C10_slot_consumed [where st = ?st and lg = "[]", OF p1 p2 p3 p4 p5]
  define sm1 where
    "sm1 = (fst (pairStep ?st 1 0.2 0 0 0 (oneObstacleSim, [])))\<lparr>wasInHitZone := [[False]]\<rparr>"
  note A = C [THEN conjunct1]
  note B = C [THEN conjunct2, THEN conjunct1]
  note N = C [THEN conjunct2, THEN conjunct2, THEN conjunct1, rule_format]
  have B': "map callResult (snd (pairStep ?st 1 0.2 0 0 0 (oneObstacleSim, []))) = [None]"
    using gated unfolding B by (simp add: oneObstacleSim_def someObstacle_def)
  have "get2 (lastHitRev sm1) 0 0 None = Some 1"
    using A by (simp add: sm1_def get2_def)
  then have D: "snd (pairStep initialState 1 0.1 0 0 0 (sm1, [])) = []"
    using N [of sm1 1 initialState "0.1" 0 "[]"] by simp
  show ?thesis
    using gated A B' D unfolding sm1_def by (intro conjI)
qed

section \<open>Sub-steps and blade angles\<close>

lemma simTime_stepSimulation:
  assumes "0 < dt" "0 < omegaOf st"
  shows "simTime (fst (stepSimulation st rnd dt w)) = simTime (fst w) + dt"
  using assms by (simp add: stepSimulation_unfold substep_frame ensure_frame)

lemma simTime_nonneg_step:
  assumes "0 \<le> simTime (fst w)"
  shows "0 \<le> simTime (fst (stepSimulation st rnd dt w))"
proof (cases "0 < dt \<and> 0 < omegaOf st")
  case True
  then show ?thesis using assms by (simp add: simTime_stepSimulation)
next
  case False
  then have "stepSimulation st rnd dt w = w" by (auto simp: stepSimulation_def)
  then show ?thesis using assms by simp
qed

lemma simTime_nonneg_run:
  "0 \<le> simTime (fst w) \<Longrightarrow> 0 \<le> simTime (fst (runFrames st fs w))"
  by (induction fs arbitrary: w) (simp_all add: simTime_nonneg_step)

text \<open>
  Claim C3: a step with \<open>dt > 0\<close> and \<open>rpm > 0\<close> is exactly 4 sub-steps of size \<open>dt / 4\<close>,
  run one after the other; each sub-step advances the simulation time by \<open>dt / 4\<close> first, so
  the step advances it by \<open>dt\<close>; and in the sub-step the nominal angle of blade \<open>b\<close> is
  \<open>(\<omega> * simTime + 2\<pi> * b / bladeCount) mod 2\<pi>\<close> with \<open>\<omega> = (rpm / 60) * 2\<pi>\<close>, the remainder
  being the one of the floor quotient. The simulation time starts at 0 and is never negative
  (lemma \<open>simTime_nonneg_run\<close>).
\<close>

theorem C3_substeps:
  assumes "0 < dt" "0 < rpm st" "0 \<le> simTime (fst w)"
  shows "substeps = 4 \<and>
    omegaOf st = (rpm st / 60) * (2 * pi) \<and>
    stepSimulation st rnd dt w =
      substep st (dt / 4) (rnd 3) (substep st (dt / 4) (rnd 2)
        (substep st (dt / 4) (rnd 1) (substep st (dt / 4) (rnd 0)
          (ensureWobblePhaseSize st (ensureHitStateSize st (fst w)), snd w)))) \<and>
    simTime (fst (stepSimulation st rnd dt w)) = simTime (fst w) + dt \<and>
    (\<forall>h rands v.
       simTime (fst (substep st h rands v)) = simTime (fst v) + h \<and>
       substep st h rands v =
         fold (\<lambda>b. bladePass st (omegaOf st * (simTime (fst v) + h))
                     \<lfloor>omegaOf st * (simTime (fst v) + h) / TWO_PI\<rfloor> (rands b) b)
           [0..<bladeCount st] ((fst v)\<lparr>simTime := simTime (fst v) + h\<rparr>, snd v)) \<and>
    (\<forall>baseAngle r rand b v.
       bladePass st baseAngle r rand b v =
         fold (pairStep st r (bladeAngle st baseAngle b)
                 (wobbleAt st (simTime (fst v))
                    (if b < length (wobblePhasePerBlade (fst v))
                     then wobblePhasePerBlade (fst v) ! b else 0) rand) b)
           [0..<length (obstacles (fst v))] v) \<and>
    (\<forall>k b. bladeAngle st (omegaOf st * (simTime (fst w) + real k * (dt / 4))) b =
       (let x = omegaOf st * (simTime (fst w) + real k * (dt / 4))
                  + 2 * pi * real b / real (bladeCount st)
        in x - 2 * pi * of_int \<lfloor>x / (2 * pi)\<rfloor>))"
proof -
  have om: "0 < omegaOf st" using assms(2) by (simp add: omegaOf_pos_iff)
  have ang: "bladeAngle st (omegaOf st * (simTime (fst w) + real k * (dt / 4))) b =
       (let x = omegaOf st * (simTime (fst w) + real k * (dt / 4))
                  + 2 * pi * real b / real (bladeCount st)
        in x - 2 * pi * of_int \<lfloor>x / (2 * pi)\<rfloor>)" for k b
  proof -
    have "0 \<le> simTime (fst w) + real k * (dt / 4)" using assms by simp
    then show ?thesis
      using bladeAngle_floor_mod [of "simTime (fst w) + real k * (dt / 4)" st b] om
      by (simp add: Let_def)
  qed
  have sub: "substep st h rands v =
         fold (\<lambda>b. bladePass st (omegaOf st * (simTime (fst v) + h))
                     \<lfloor>omegaOf st * (simTime (fst v) + h) / TWO_PI\<rfloor> (rands b) b)
           [0..<bladeCount st] ((fst v)\<lparr>simTime := simTime (fst v) + h\<rparr>, snd v)" for h rands v
    by (simp add: substep_def Let_def)
  have bp: "bladePass st baseAngle r rand b v =
         fold (pairStep st r (bladeAngle st baseAngle b)
                 (wobbleAt st (simTime (fst v))
                    (if b < length (wobblePhasePerBlade (fst v))
                     then wobblePhasePerBlade (fst v) ! b else 0) rand) b)
           [0..<length (obstacles (fst v))] v" for baseAngle r rand b v
    by (simp add: bladePass_def Let_def)
  show ?thesis
    apply (intro conjI allI)
          apply (simp add: substeps_def)
         apply (simp add: omegaOf_def TWO_PI_def)
        apply (rule stepSimulation_unfold [OF assms(1) om])
       apply (rule simTime_stepSimulation [OF assms(1) om])
      apply (simp add: substep_frame)
     apply (rule sub)
    apply (rule bp)
    apply (rule ang)
    done
qed

theorem C3_substeps_witness:
  "(0::real) < 1 / 60 \<and> 0 < rpm initialState \<and> 0 \<le> simTime (fst (initialSim, [])) \<and>
   simTime (fst (stepSimulation initialState (\<lambda>s b. 0) (1 / 60) (initialSim, []))) = 1 / 60 \<and>
   simTime (fst (substep initialState (1 / 60 / 4) (\<lambda>b. 0)
      (ensureWobblePhaseSize initialState (ensureHitStateSize initialState initialSim), []))) = 1 / 240"
proof -
  have p1: "(0::real) < 1 / 60" by simp
  have p2: "0 < rpm initialState" by (simp add: initialState_def)
  have p3: "0 \<le> simTime (fst (initialSim, []))" by (simp add: initialSim_def)
  note C = C3_substeps [where rnd = "\<lambda>s b. 0", OF p1 p2 p3]
  note T = C [THEN conjunct2, THEN conjunct2, THEN conjunct2, THEN conjunct1]
  note S = C [THEN conjunct2, THEN conjunct2, THEN conjunct2, THEN conjunct2, THEN conjunct1,
      rule_format, THEN conjunct1]
  have "simTime (fst (stepSimulation initialState (\<lambda>s b. 0) (1 / 60) (initialSim, []))) = 1 / 60"
    using T by (simp add: initialSim_def)
  moreover have "simTime (fst (substep initialState (1 / 60 / 4) (\<lambda>b. 0)
      (ensureWobblePhaseSize initialState (ensureHitStateSize initialState initialSim), []))) = 1 / 240"
    unfolding S by (simp add: ensure_frame initialSim_def)
  ultimately show ?thesis using p1 p2 p3 by (intro conjI)
qed

section \<open>Angle ranges\<close>

lemma js_rem_range_nonneg:
  assumes "0 \<le> x" "0 < m"
  shows "0 \<le> js_rem x m \<and> js_rem x m < m"
proof -
  define q where "q = x / m"
  have x: "x = m * q" using assms(2) by (simp add: q_def)
  have eq: "js_rem x m = m * q - m * of_int \<lfloor>q\<rfloor>"
    using js_rem_nonneg [OF assms] assms(2) by (simp add: q_def)
  have "0 \<le> q - of_int \<lfloor>q\<rfloor>" by linarith
  then have lo: "0 \<le> m * (q - of_int \<lfloor>q\<rfloor>)"
    using assms(2) by simp
  have "q - of_int \<lfloor>q\<rfloor> < 1" by linarith
  then have "m * (q - of_int \<lfloor>q\<rfloor>) < m * 1"
    using assms(2) by (intro mult_strict_left_mono)
  with lo show ?thesis unfolding eq by (simp add: algebra_simps)
qed






lemma bladeAngle_range:
  assumes "0 \<le> baseAngle"
  shows "0 \<le> bladeAngle st baseAngle b \<and> bladeAngle st baseAngle b < TWO_PI"
proof -
  have "0 \<le> baseAngle + (TWO_PI * real b) / real (bladeCount st)"
    using assms TWO_PI_pos by simp
  then show ?thesis
    unfolding bladeAngle_def by (rule js_rem_range_nonneg [OF _ TWO_PI_pos])
qed

lemma adjusted_angle_gap:
  assumes "0 \<le> baseAngle" "0 \<le> obsAngle" "obsAngle \<le> 2 * pi" "\<bar>wobble\<bar> \<le> pi"
  shows "\<bar>bladeAngle st baseAngle b + wobble - obsAngle\<bar> \<le> 3 * pi"
  using bladeAngle_range [OF assms(1), of st b] assms(2-4)
  by (simp add: TWO_PI_def abs_le_iff)






end
